(* ===== verification/Prelude.thy ===== *)
theory Prelude
  imports Complex_Main
begin

text \<open>
  Shared vocabulary of the development. JavaScript numbers are modelled as reals
  (\<open>px\<close>, layout offsets in density-independent pixels): the code never relies on
  IEEE rounding, overflow or NaN on the inputs the theorems admit (a positive tab
  width). \<open>Math.round\<close> is \<open>js_round\<close>, \<open>Math.min\<close>/\<open>Math.max\<close> are \<open>min\<close>/\<open>max\<close>,
  and a lookup of a string key in a list of names is \<open>pos_of\<close>. The lemmas here
  (rounding of integers and near-integers, the clamp idiom \<open>min (max x lo) hi\<close>,
  list positions) carry the component proofs.
\<close>

type_synonym px = real

named_theorems js_simps \<open>evaluation rules for the JavaScript built-ins of the model\<close>

text \<open>
  ECMAScript \<open>Math.round(x)\<close>: the integer closest to \<open>x\<close>, ties towards
  \<open>+\<infinity>\<close>, i.e. \<open>\<lfloor>x + 1/2\<rfloor>\<close> (ECMA-262, 21.3.2.28).
\<close>

definition js_round :: "real \<Rightarrow> int" where
  "js_round x = \<lfloor>x + 1 / 2\<rfloor>"

text \<open>
  The rounding rule the specification names: half away from zero.
\<close>

definition round_half_away :: "real \<Rightarrow> int" where
  "round_half_away x = (if 0 \<le> x then \<lfloor>x + 1 / 2\<rfloor> else - \<lfloor>- x + 1 / 2\<rfloor>)"

text \<open>Position of the first occurrence of a key in a list, \<open>None\<close> when absent.\<close>

primrec pos_of :: "'a list \<Rightarrow> 'a \<Rightarrow> nat option" where
  "pos_of [] x = None"
| "pos_of (y # ys) x = (if y = x then Some 0 else map_option Suc (pos_of ys x))"

subsection \<open>Rounding\<close>

lemma js_round_eqI [intro]:
  assumes "real_of_int k - 1 / 2 \<le> x" and "x < real_of_int k + 1 / 2"
  shows "js_round x = k"
  using assms unfolding js_round_def by (simp add: floor_eq_iff)

lemma js_round_of_int [simp, js_simps]: "js_round (real_of_int k) = k"
  by (rule js_round_eqI) simp_all

lemma js_round_of_nat [simp, js_simps]: "js_round (real n) = int n"
  using js_round_of_int [of "int n"] by simp

lemma js_round_0 [simp, js_simps]: "js_round 0 = 0"
  by (simp add: js_round_def)

lemma js_round_mono: "x \<le> y \<Longrightarrow> js_round x \<le> js_round y"
  unfolding js_round_def by (simp add: floor_mono)

lemma js_round_le_iff: "js_round x \<le> k \<longleftrightarrow> x < real_of_int k + 1 / 2"
  unfolding js_round_def floor_le_iff by linarith

lemma js_round_ge_iff: "k \<le> js_round x \<longleftrightarrow> real_of_int k - 1 / 2 \<le> x"
  unfolding js_round_def le_floor_iff by linarith

lemma js_round_nonneg: "0 \<le> x \<Longrightarrow> 0 \<le> js_round x"
  using js_round_ge_iff [of 0 x] by simp

lemma round_half_away_nonneg: "0 \<le> x \<Longrightarrow> round_half_away x = js_round x"
  by (simp add: round_half_away_def js_round_def)

subsection \<open>The clamp idiom \<open>Math.min(Math.max(x, lo), hi)\<close>\<close>

lemma clamp_bounds [simp]:
  "(lo :: 'a :: linorder) \<le> hi \<Longrightarrow> lo \<le> min (max x lo) hi \<and> min (max x lo) hi \<le> hi"
  by (auto simp: min_def max_def not_le)

lemma clamp_inside [simp]:
  "(lo :: 'a :: linorder) \<le> x \<Longrightarrow> x \<le> hi \<Longrightarrow> min (max x lo) hi = x"
  by (simp add: min_def max_def)

lemma clamp_int_range:
  "0 \<le> max 0 (min (int n) k) \<and> max 0 (min (int n) k) \<le> int n"
  by simp

subsection \<open>Positions in lists\<close>

lemma pos_of_Some_iff: "pos_of xs x = Some i \<longleftrightarrow> i < length xs \<and> xs ! i = x \<and> (\<forall>j<i. xs ! j \<noteq> x)"
proof (induction xs arbitrary: i)
  case Nil
  then show ?case by simp
next
  case (Cons y ys)
  show ?case
  proof (cases i)
    case 0
    then show ?thesis by auto
  next
    case (Suc i')
    have "(\<forall>j<Suc i'. (y # ys) ! j \<noteq> x) \<longleftrightarrow> y \<noteq> x \<and> (\<forall>j<i'. ys ! j \<noteq> x)"
      by (auto simp: less_Suc_eq_0_disj)
    with Cons.IH Suc show ?thesis by auto
  qed
qed

lemma pos_of_None_iff: "pos_of xs x = None \<longleftrightarrow> x \<notin> set xs"
  by (induction xs) auto

lemma pos_of_distinct_nth:
  "distinct xs \<Longrightarrow> i < length xs \<Longrightarrow> pos_of xs (xs ! i) = Some i"
  by (auto simp: pos_of_Some_iff nth_eq_iff_index_eq)

subsection \<open>Minimisers\<close>

text \<open>
  \<open>arg_min_list f xs\<close> is the first minimiser of \<open>f\<close> in \<open>xs\<close>; on a descending
  list of indices it is the largest one.
\<close>

lemma arg_min_list_Cons:
  "xs \<noteq> [] \<Longrightarrow> arg_min_list f (x # xs) = (let m = arg_min_list f xs in if f x \<le> f m then x else m)"
  by (cases xs) simp_all

lemma arg_min_list_rev_upt:
  assumes "k \<le> n" and "\<And>j. j \<le> n \<Longrightarrow> f k \<le> f j" and "\<And>j. k < j \<Longrightarrow> j \<le> n \<Longrightarrow> f k < f j"
  shows "arg_min_list f (rev [0..<Suc n]) = k"
  using assms
proof (induction n)
  case 0
  then show ?case by simp
next
  case (Suc n)
  have rest: "rev [0..<Suc (Suc n)] = Suc n # rev [0..<Suc n]" by simp
  show ?case
  proof (cases "k = Suc n")
    case True
    have "f (Suc n) \<le> f (arg_min_list f (rev [0..<Suc n]))"
      using True Suc.prems(2) arg_min_list_in [of "rev [0..<Suc n]" f] by auto
    with True show ?thesis unfolding rest by (simp add: arg_min_list_Cons del: upt_Suc)
  next
    case False
    then have m: "arg_min_list f (rev [0..<Suc n]) = k"
      using Suc.prems by (intro Suc.IH) auto
    have "f k < f (Suc n)" using False Suc.prems by simp
    with m show ?thesis unfolding rest by (auto simp: arg_min_list_Cons simp del: upt_Suc)
  qed
qed

end
