(* ===== verification/Tabs.thy ===== *)
theory Tabs
  imports Colors
begin

text \<open>
  The tabs and their routes. Three sources agree on the set of screens:
  \<^item> the tab bar's constant \<open>TABS\<close> and its table \<open>tabMeta\<close>
    (\<open>src/components/FloatigCapsuleBar.tsx\<close>, lines 26--34);
  \<^item> the icon set \<open>icons\<close> of \<open>src/components/icons\<close> (not part of the sources;
    its keys are taken from the specification and the imports);
  \<^item> the screen registrations of \<open>TabLayout\<close> (\<open>src/app/(tabs)/_layout.tsx\<close>).
  The navigation container (expo-router's \<open>Tabs\<close>, a library) is modelled from
  the specification: its state is the ordered route list and the active index, and
  \<open>navigate name\<close> makes the route called \<open>name\<close> active (an unknown name leaves the
  state unchanged). The route list is the list of registered screen names, in
  registration order.
\<close>

subsection \<open>The tab bar's table\<close>

definition TABS :: "string list" where
  "TABS = [''index'', ''camera'', ''conversation'', ''favorites'']"

record tab_meta =
  label :: string
  icon :: string

definition tabMeta :: "string \<rightharpoonup> tab_meta" where
  "tabMeta =
     [''index'' \<mapsto> \<lparr>label = ''Translate'', icon = ''translate''\<rparr>,
      ''camera'' \<mapsto> \<lparr>label = ''Camera'', icon = ''camera''\<rparr>,
      ''conversation'' \<mapsto> \<lparr>label = ''Conversation'', icon = ''conversation''\<rparr>,
      ''favorites'' \<mapsto> \<lparr>label = ''Favorites'', icon = ''favorites''\<rparr>]"

text \<open>The keys of the icon set \<open>icons\<close> (\<open>keyof typeof icons\<close>).\<close>

definition icon_keys :: "string list" where
  "icon_keys = [''translate'', ''camera'', ''conversation'', ''favorites'']"

subsection \<open>The layout's screen registrations\<close>

record screen =
  scr_name :: string
  scr_title :: string
  scr_icon :: string

definition TabLayout_screens :: "screen list" where
  "TabLayout_screens =
     [\<lparr>scr_name = ''index'', scr_title = ''Translation'', scr_icon = ''Translate''\<rparr>,
      \<lparr>scr_name = ''camera'', scr_title = ''Camera'', scr_icon = ''Camera''\<rparr>,
      \<lparr>scr_name = ''conversation'', scr_title = ''Conversation'', scr_icon = ''Converesation''\<rparr>,
      \<lparr>scr_name = ''favorites'', scr_title = ''Favorites'', scr_icon = ''Favorites''\<rparr>]"

record screen_options =
  tabBarActiveTintColor :: color
  headerShown :: bool

definition TabLayout_options :: "scheme option \<Rightarrow> screen_options" where
  "TabLayout_options cs =
     \<lparr>tabBarActiveTintColor = tint (Colors (scheme_or_light cs)), headerShown = False\<rparr>"

subsection \<open>The navigation container\<close>

record nav_state =
  nav_routes :: "string list"
  nav_index :: nat

definition layout_routes :: "string list" where
  "layout_routes = map scr_name TabLayout_screens"

definition init_nav :: "nat \<Rightarrow> nav_state" where
  "init_nav i = \<lparr>nav_routes = layout_routes, nav_index = i\<rparr>"

definition navigate :: "string \<Rightarrow> nav_state \<Rightarrow> nav_state" where
  "navigate name st =
     (case pos_of (nav_routes st) name of
        None \<Rightarrow> st
      | Some i \<Rightarrow> st\<lparr>nav_index := i\<rparr>)"

text \<open>The container's own invariant: the active index names a route.\<close>

definition nav_wf :: "nav_state \<Rightarrow> bool" where
  "nav_wf st \<longleftrightarrow> nav_index st < length (nav_routes st)"

subsection \<open>The key type of the tab table\<close>

text \<open>
  The type of the table's keys, \<open>(typeof TABS)[number]\<close>: the union of the four
  string literals of the \<open>as const\<close> array, one constructor per literal
  (\<open>tab_name\<close> gives the literal). \<open>Record<(typeof TABS)[number], ...>\<close> makes
  \<open>tabMeta\<close> total on it.
\<close>

datatype tab = Tab_index | Tab_camera | Tab_conversation | Tab_favorites

primrec tab_name :: "tab \<Rightarrow> string" where
  "tab_name Tab_index = ''index''"
| "tab_name Tab_camera = ''camera''"
| "tab_name Tab_conversation = ''conversation''"
| "tab_name Tab_favorites = ''favorites''"

instantiation tab :: enum
begin

definition "enum_tab = [Tab_index, Tab_camera, Tab_conversation, Tab_favorites]"

definition "enum_all_tab P \<longleftrightarrow> P Tab_index \<and> P Tab_camera \<and> P Tab_conversation \<and> P Tab_favorites"

definition "enum_ex_tab P \<longleftrightarrow> P Tab_index \<or> P Tab_camera \<or> P Tab_conversation \<or> P Tab_favorites"

instance
proof
  show univ: "UNIV = set (enum_class.enum :: tab list)"
    using tab.exhaust by (auto simp: enum_tab_def)
  show "distinct (enum_class.enum :: tab list)" by (simp add: enum_tab_def)
  show "enum_class.enum_all P = Ball UNIV P" for P :: "tab \<Rightarrow> bool"
    by (simp add: univ enum_tab_def enum_all_tab_def)
  show "enum_class.enum_ex P = Bex UNIV P" for P :: "tab \<Rightarrow> bool"
    by (simp add: univ enum_tab_def enum_ex_tab_def)
qed

end

lemmas tab_table_defs = TABS_def tabMeta_def icon_keys_def TabLayout_screens_def layout_routes_def

subsection \<open>Lemmas\<close>

lemma length_TABS [simp]: "length TABS = 4"
  by (simp add: TABS_def)

lemma distinct_TABS [simp]: "distinct TABS"
  by (simp add: TABS_def)

lemma layout_routes_TABS [simp]: "layout_routes = TABS"
  by (simp add: tab_table_defs)

lemma navigate_routes [simp]: "nav_routes (navigate name st) = nav_routes st"
  by (simp add: navigate_def split: option.split)

lemma navigate_wf: "nav_wf st \<Longrightarrow> nav_wf (navigate name st)"
  by (auto simp: navigate_def nav_wf_def pos_of_Some_iff split: option.split)

lemma navigate_TABS_nth [simp]:
  "nav_routes st = TABS \<Longrightarrow> i < length TABS \<Longrightarrow> navigate (TABS ! i) st = st\<lparr>nav_index := i\<rparr>"
  by (simp add: navigate_def pos_of_distinct_nth)

lemma navigate_unknown: "name \<notin> set (nav_routes st) \<Longrightarrow> navigate name st = st"
  by (simp add: navigate_def pos_of_None_iff [THEN iffD2])

end
