(* ===== verification/Animation.thy ===== *)
theory Animation
  imports Prelude
begin

text \<open>
  Shared values of react-native-reanimated (\<open>useSharedValue\<close>), the animated state
  of the tab bar. The library is not part of the sources; its behaviour is modelled
  from its documented contract and its implementation of \<open>withTiming\<close> and
  \<open>withSequence\<close>:
  \<^item> a shared value holds a current value \<open>cur\<close> (what \<open>sv.value\<close> reads) and the
    queue \<open>pending\<close> of segments \<open>(target, duration)\<close> of the animation running on it,
    with the value \<open>seg_from\<close> at which the head segment started and the time
    \<open>elapsed\<close> (ms) spent in it;
  \<^item> writing a number (\<open>sv.value = v\<close>) is \<open>set_value\<close>: the value jumps and any
    running animation is cancelled;
  \<^item> writing an animation (\<open>sv.value = withTiming(t, {duration: d})\<close>,
    \<open>withSequence(a, b)\<close>) is \<open>start_anim\<close>: the running animation is replaced, the
    new one starts from the current value; \<open>withTiming t d\<close> is the one-segment queue
    \<open>[(t, d)]\<close> (\<open>DEFAULT_DURATION\<close> when no duration is given), and \<open>withSequence\<close>
    concatenates;
  \<^item> a frame of the UI thread, \<open>dt\<close> ms after the previous one, is \<open>anim_frame dt\<close>:
    the head segment's clock advances by \<open>dt\<close>; once it reaches the duration the value
    is the target and the next segment starts (from that frame, as
    \<open>withSequence\<close> does), before it the value is
    \<open>seg_from + ease (elapsed / duration) * (target - seg_from)\<close> with the default
    easing \<open>Easing.inOut(Easing.quad)\<close>.
  The lemmas: a frame keeps the value at which the animation will rest
  (\<open>final_value\<close>) and every value inside any interval holding the value, the
  segment's start and the targets (\<open>anim_between\<close>); \<open>frames_left dt\<close> frames of
  \<open>dt\<close> ms settle it, each frame using up exactly one of them.
\<close>

type_synonym segment = "real \<times> real"

type_synonym animation = "segment list"

record anim =
  cur :: real
  pending :: animation
  seg_from :: real
  elapsed :: real

definition DEFAULT_DURATION :: real where
  "DEFAULT_DURATION = 300"

definition withTiming :: "real \<Rightarrow> real \<Rightarrow> animation" where
  "withTiming t d = [(t, d)]"

definition withSequence :: "animation list \<Rightarrow> animation" where
  "withSequence as = concat as"

definition shared_init :: "real \<Rightarrow> anim" where
  "shared_init v = \<lparr>cur = v, pending = [], seg_from = v, elapsed = 0\<rparr>"

definition set_value :: "real \<Rightarrow> anim \<Rightarrow> anim" where
  "set_value v a = a\<lparr>cur := v, pending := [], seg_from := v, elapsed := 0\<rparr>"

definition start_anim :: "animation \<Rightarrow> anim \<Rightarrow> anim" where
  "start_anim an a = a\<lparr>pending := an, seg_from := cur a, elapsed := 0\<rparr>"

text \<open>\<open>Easing.inOut(Easing.quad)\<close>, the default easing of \<open>withTiming\<close>.\<close>

definition ease :: "real \<Rightarrow> real" where
  "ease x = (if x < 1 / 2 then 2 * x * x else 1 - (2 - 2 * x) * (2 - 2 * x) / 2)"

definition anim_frame :: "real \<Rightarrow> anim \<Rightarrow> anim" where
  "anim_frame dt a =
     (case pending a of
        [] \<Rightarrow> a
      | (t, d) # ts \<Rightarrow>
          (let e = elapsed a + dt
           in if d \<le> e then a\<lparr>cur := t, pending := ts, seg_from := t, elapsed := 0\<rparr>
              else a\<lparr>cur := seg_from a + ease (e / d) * (t - seg_from a), elapsed := e\<rparr>))"

definition final_value :: "anim \<Rightarrow> real" where
  "final_value a = (if pending a = [] then cur a else fst (last (pending a)))"

definition anim_between :: "real \<Rightarrow> real \<Rightarrow> anim \<Rightarrow> bool" where
  "anim_between lo hi a \<longleftrightarrow>
     lo \<le> cur a \<and> cur a \<le> hi \<and> lo \<le> seg_from a \<and> seg_from a \<le> hi \<and> 0 \<le> elapsed a \<and>
     list_all (\<lambda>(t, d). lo \<le> t \<and> t \<le> hi) (pending a)"

text \<open>
  The frames of \<open>dt\<close> ms still needed: the head segment needs enough for its
  remaining time, each later one enough for its duration, and every segment at least
  the frame that completes it.
\<close>

definition seg_frames :: "real \<Rightarrow> real \<Rightarrow> nat" where
  "seg_frames dt r = max 1 (nat \<lceil>r / dt\<rceil>)"

definition frames_left :: "real \<Rightarrow> anim \<Rightarrow> nat" where
  "frames_left dt a =
     (case pending a of
        [] \<Rightarrow> 0
      | (t, d) # ts \<Rightarrow> seg_frames dt (d - elapsed a) + sum_list (map (\<lambda>(t, d). seg_frames dt d) ts))"

definition settle :: "anim \<Rightarrow> anim" where
  "settle a = (if pending a = [] then a
               else a\<lparr>cur := final_value a, pending := [], seg_from := final_value a, elapsed := 0\<rparr>)"

text \<open>
  A bound on an animation: at most \<open>n\<close> segments, none longer than \<open>D\<close> ms, and a
  nonnegative clock.
\<close>

definition anim_bounded :: "nat \<Rightarrow> real \<Rightarrow> anim \<Rightarrow> bool" where
  "anim_bounded n D a \<longleftrightarrow>
     length (pending a) \<le> n \<and> list_all (\<lambda>(t, d). d \<le> D) (pending a) \<and> 0 \<le> elapsed a"

lemmas anim_defs [simp] = withTiming_def withSequence_def shared_init_def

lemma set_value_sel [simp]:
  "cur (set_value v a) = v" "pending (set_value v a) = []"
  "seg_from (set_value v a) = v" "elapsed (set_value v a) = 0"
  by (simp_all add: set_value_def)

lemma start_anim_sel [simp]:
  "cur (start_anim an a) = cur a" "pending (start_anim an a) = an"
  "seg_from (start_anim an a) = cur a" "elapsed (start_anim an a) = 0"
  by (simp_all add: start_anim_def)

subsection \<open>Lemmas\<close>

lemma ease_bounds: "0 \<le> x \<Longrightarrow> x \<le> 1 \<Longrightarrow> 0 \<le> ease x \<and> ease x \<le> 1"
proof -
  assume x: "0 \<le> x" "x \<le> 1"
  have "0 \<le> (2 - 2 * x) * (2 - 2 * x)" by simp
  moreover have "(2 - 2 * x) * (2 - 2 * x) \<le> 2" if "1 / 2 \<le> x"
    using that x mult_mono [of "2 - 2 * x" 1 "2 - 2 * x" 1] by simp
  moreover have "2 * x * x \<le> 1" if "x < 1 / 2"
    using that x mult_mono [of x "1 / 2" x "1 / 2"] by simp
  ultimately show ?thesis using x by (auto simp: ease_def)
qed

lemma convex_step_between:
  fixes a b \<theta> :: real
  assumes "0 \<le> \<theta>" "\<theta> \<le> 1" "lo \<le> a" "a \<le> hi" "lo \<le> b" "b \<le> hi"
  shows "lo \<le> a + \<theta> * (b - a) \<and> a + \<theta> * (b - a) \<le> hi"
proof -
  have eq: "a + \<theta> * (b - a) = (1 - \<theta>) * a + \<theta> * b" by (simp add: algebra_simps)
  have "(1 - \<theta>) * lo + \<theta> * lo \<le> (1 - \<theta>) * a + \<theta> * b"
    using assms by (intro add_mono mult_left_mono) simp_all
  moreover have "(1 - \<theta>) * a + \<theta> * b \<le> (1 - \<theta>) * hi + \<theta> * hi"
    using assms by (intro add_mono mult_left_mono) simp_all
  ultimately show ?thesis unfolding eq by (simp add: algebra_simps)
qed

lemma anim_frame_final_value [simp]: "final_value (anim_frame dt a) = final_value a"
  by (auto simp: anim_frame_def final_value_def Let_def split: list.split)

lemma anim_frame_between:
  assumes "anim_between lo hi a" and "0 \<le> dt"
  shows "anim_between lo hi (anim_frame dt a)"
proof (cases "pending a")
  case Nil
  with assms show ?thesis by (simp add: anim_frame_def)
next
  case (Cons s ts)
  obtain t d where s: "s = (t, d)" by fastforce
  have "lo \<le> t" "t \<le> hi" "lo \<le> seg_from a" "seg_from a \<le> hi" "0 \<le> elapsed a"
    and ts: "list_all (\<lambda>(t, d). lo \<le> t \<and> t \<le> hi) ts"
    using assms Cons s by (simp_all add: anim_between_def)
  moreover have "0 \<le> ease ((elapsed a + dt) / d) \<and> ease ((elapsed a + dt) / d) \<le> 1"
    if "\<not> d \<le> elapsed a + dt"
    using that assms(2) \<open>0 \<le> elapsed a\<close> by (intro ease_bounds) simp_all
  ultimately show ?thesis
    using Cons s assms(2)
      convex_step_between [of "ease ((elapsed a + dt) / d)" lo "seg_from a" hi t]
    by (auto simp: anim_frame_def anim_between_def Let_def)
qed

lemma between_set_value [simp]: "anim_between lo hi (set_value v a) \<longleftrightarrow> lo \<le> v \<and> v \<le> hi"
  by (auto simp: anim_between_def)

lemma between_start_anim [simp]:
  "anim_between lo hi (start_anim an a) \<longleftrightarrow>
     lo \<le> cur a \<and> cur a \<le> hi \<and> list_all (\<lambda>(t, d). lo \<le> t \<and> t \<le> hi) an"
  by (auto simp: anim_between_def)

lemma final_value_start_anim [simp]:
  "an \<noteq> [] \<Longrightarrow> final_value (start_anim an a) = fst (last an)"
  by (simp add: final_value_def)

lemma final_value_set_value [simp]: "final_value (set_value v a) = v"
  by (simp add: final_value_def)

lemma settle_anim_frame [simp]: "settle (anim_frame dt a) = settle a"
  by (auto simp: settle_def anim_frame_def final_value_def Let_def split: list.split)

lemma frames_left_start:
  "elapsed a = 0 \<Longrightarrow> frames_left dt a = sum_list (map (\<lambda>(t, d). seg_frames dt d) (pending a))"
  by (auto simp: frames_left_def split: list.split)

lemma seg_frames_pos: "1 \<le> seg_frames dt r"
  by (simp add: seg_frames_def)

lemma seg_frames_last: "0 < dt \<Longrightarrow> r \<le> dt \<Longrightarrow> seg_frames dt r = 1"
proof -
  assume "0 < dt" "r \<le> dt"
  then have "\<lceil>r / dt\<rceil> \<le> 1" by (simp add: ceiling_le_iff)
  then show ?thesis by (simp add: seg_frames_def)
qed

lemma seg_frames_step: "0 < dt \<Longrightarrow> dt < r \<Longrightarrow> seg_frames dt (r - dt) = seg_frames dt r - 1"
proof -
  assume dt: "0 < dt" and r: "dt < r"
  have x: "(r - dt) / dt = r / dt - 1" using dt by (simp add: diff_divide_distrib)
  have "1 < r / dt" using dt r by simp
  then have c: "2 \<le> \<lceil>r / dt\<rceil>" by linarith
  then have "nat (\<lceil>r / dt\<rceil> - 1) = nat \<lceil>r / dt\<rceil> - 1" "1 \<le> nat (\<lceil>r / dt\<rceil> - 1)"
    by linarith+
  with c show ?thesis unfolding seg_frames_def x by (simp add: max_def)
qed

lemma frames_left_frame:
  assumes "0 < dt" and "pending a \<noteq> []"
  shows "frames_left dt (anim_frame dt a) = frames_left dt a - 1 \<and> 1 \<le> frames_left dt a"
proof -
  obtain t d ts where p: "pending a = (t, d) # ts" using assms(2) by (cases "pending a") auto
  show ?thesis
  proof (cases "d \<le> elapsed a + dt")
    case True
    then have "seg_frames dt (d - elapsed a) = 1" using assms(1) by (intro seg_frames_last) simp_all
    moreover have "anim_frame dt a = a\<lparr>cur := t, pending := ts, seg_from := t, elapsed := 0\<rparr>"
      using True p by (simp add: anim_frame_def)
    ultimately show ?thesis
      using p frames_left_start [of "a\<lparr>cur := t, pending := ts, seg_from := t, elapsed := 0\<rparr>" dt]
      by (simp add: frames_left_def)
  next
    case False
    then have "seg_frames dt (d - elapsed a - dt) = seg_frames dt (d - elapsed a) - 1"
      using assms(1) by (intro seg_frames_step) simp_all
    with False p seg_frames_pos [of dt "d - elapsed a"] show ?thesis
      by (simp add: anim_frame_def frames_left_def Let_def algebra_simps)
  qed
qed

text \<open>
  Every animation on a shared value finishes: \<open>frames_left dt a\<close> frames of \<open>dt\<close> ms
  (or more) leave it at its final value with nothing running.
\<close>

lemma animation_settles:
  assumes "0 < dt" and "frames_left dt a \<le> n"
  shows "(anim_frame dt ^^ n) a = settle a"
  using assms(2)
proof (induction n arbitrary: a)
  case 0
  then have "pending a = []" using frames_left_frame [OF assms(1), of a] by auto
  then show ?case by (simp add: settle_def)
next
  case (Suc n)
  have "frames_left dt (anim_frame dt a) \<le> n"
  proof (cases "pending a = []")
    case True
    then show ?thesis by (simp add: anim_frame_def frames_left_def)
  next
    case False
    with Suc.prems frames_left_frame [OF assms(1) False] show ?thesis by simp
  qed
  then have "(anim_frame dt ^^ n) (anim_frame dt a) = settle a" by (simp add: Suc.IH)
  then show ?case by (simp add: funpow_Suc_right del: funpow.simps)
qed

lemma settle_sel [simp]: "pending (settle a) = []" "cur (settle a) = final_value a"
  by (simp_all add: settle_def final_value_def)

lemma seg_frames_mono: "0 < dt \<Longrightarrow> r \<le> r' \<Longrightarrow> seg_frames dt r \<le> seg_frames dt r'"
  unfolding seg_frames_def by (intro max.mono order_refl nat_mono ceiling_mono divide_right_mono) simp_all

lemma sum_frames_bounded:
  "0 < dt \<Longrightarrow> list_all (\<lambda>(t, d). d \<le> D) ts \<Longrightarrow>
   sum_list (map (\<lambda>(t, d). seg_frames dt d) ts) \<le> length ts * seg_frames dt D"
proof (induction ts)
  case (Cons s ts)
  obtain t d where s: "s = (t, d)" by fastforce
  with Cons have "seg_frames dt d \<le> seg_frames dt D" by (intro seg_frames_mono) simp_all
  with Cons s show ?case by simp
qed simp

lemma anim_bounded_frame:
  "anim_bounded n D a \<Longrightarrow> 0 \<le> dt \<Longrightarrow> anim_bounded n D (anim_frame dt a)"
  by (auto simp: anim_bounded_def anim_frame_def Let_def split: list.split)

lemma frames_left_bounded:
  assumes "0 < dt" and "anim_bounded n D a"
  shows "frames_left dt a \<le> n * seg_frames dt D"
proof (cases "pending a")
  case Nil
  then show ?thesis by (simp add: frames_left_def)
next
  case (Cons s ts)
  obtain t d where s: "s = (t, d)" by fastforce
  have "seg_frames dt (d - elapsed a) \<le> seg_frames dt D"
    using assms Cons s by (intro seg_frames_mono) (auto simp: anim_bounded_def)
  moreover have "sum_list (map (\<lambda>(t, d). seg_frames dt d) ts) \<le> length ts * seg_frames dt D"
    using assms Cons by (intro sum_frames_bounded) (simp_all add: anim_bounded_def)
  moreover have "Suc (length ts) \<le> n" using assms(2) Cons by (simp add: anim_bounded_def)
  ultimately show ?thesis
    using Cons s mult_le_mono1 [of "Suc (length ts)" n "seg_frames dt D"]
    by (simp add: frames_left_def)
qed

lemma frames_left_pos: "0 < dt \<Longrightarrow> 0 < frames_left dt a \<longleftrightarrow> pending a \<noteq> []"
  using frames_left_frame [of dt a] by (auto simp: frames_left_def)

lemma frames_left_funpow:
  assumes "0 < dt"
  shows "frames_left dt ((anim_frame dt ^^ n) a) = frames_left dt a - n"
proof (induction n)
  case (Suc n)
  let ?x = "(anim_frame dt ^^ n) a"
  show ?case
  proof (cases "pending ?x = []")
    case True
    then have "frames_left dt ?x = 0" and "anim_frame dt ?x = ?x"
      by (simp_all add: frames_left_def anim_frame_def)
    with Suc.IH show ?thesis by simp
  next
    case False
    with Suc.IH frames_left_frame [OF assms False] show ?thesis by simp
  qed
qed simp

end
