(* ===== verification/CapsuleBar.thy ===== *)
theory CapsuleBar
  imports Tabs Animation
begin

text \<open>
  The floating capsule tab bar, \<open>src/components/FloatigCapsuleBar.tsx\<close>.
  \<^item> Module constants: \<open>CONTAINER_PADDING\<close>, \<open>TAB_WIDTH\<close> (a function of the window
    width \<open>sw\<close> read once at load time) and the style sheet \<open>styles\<close>.
  \<^item> Component state (record \<open>bar\<close>): the five shared values of the component
    (\<open>capsuleScaleX\<close>, \<open>capsuleScaleY\<close>, \<open>isDragging\<close>, \<open>translateX\<close>, \<open>startX\<close>),
    the navigation state \<open>navstate\<close> the container passes as the prop \<open>state\<close>, and
    the state \<open>gesture\<close> of the pan gesture handler (react-native-gesture-handler).
  \<^item> Handlers: \<open>mount_bar\<close> (the initial values of the hooks), \<open>onBegin\<close>,
    \<open>onStart\<close>, \<open>onUpdate\<close>, \<open>onEnd\<close> of \<open>panGesture\<close>, and \<open>onPress\<close> of the tab
    buttons; \<open>render_bar\<close> is what the component renders.
  \<^item> Events (\<open>dispatch\<close>): the callbacks are called by the gesture handler's state
    machine, as documented for react-native-gesture-handler 2: \<open>onBegin\<close> when
    touches start (UNDETERMINED to BEGAN), \<open>onStart\<close> on activation (BEGAN to ACTIVE),
    \<open>onUpdate\<close> while ACTIVE, \<open>onEnd\<close> when an ACTIVE gesture ends or is cancelled,
    and no callback of this component when a BEGAN gesture fails (only \<open>onFinalize\<close>,
    which the component does not set). Presses, animation frames and navigations
    done elsewhere in the app interleave freely with them.
  Here \<open>runOnJS(navigation.navigate)\<close> is read as an immediate call of the container's
  \<open>navigate\<close>; \<open>Async_Navigation\<close> models the call as queued on the JS thread
  and shows that this reading is exact when the JS thread keeps up.
\<close>

subsection \<open>Constants and styles\<close>

definition CONTAINER_PADDING :: px where
  "CONTAINER_PADDING = 8"

definition TAB_WIDTH :: "px \<Rightarrow> px" where
  "TAB_WIDTH sw = (sw - CONTAINER_PADDING * 2) / real (length TABS)"

record container_style =
  c_height :: px
  c_bottom :: px
  c_left :: px
  c_right :: px
  c_borderRadius :: px
  c_paddingHorizontal :: px
  c_borderWidth :: px

record capsule_style =
  cap_top :: px
  cap_left :: px
  cap_width :: px
  cap_height :: px
  cap_borderRadius :: px

record tab_content_style =
  tc_flex :: real
  tc_alignItems :: string
  tc_paddingTop :: px
  tc_justifyContent :: string

text \<open>
  A text style; \<open>tl_color\<close> is \<open>None\<close> where the style sets no colour (the sheet's
  \<open>tabLabel\<close>), and the array \<open>[styles.tabLabel, {color}]\<close> sets it.
\<close>

record tab_label_style =
  tl_fontSize :: real
  tl_marginBottom :: px
  tl_fontWeight :: string
  tl_letterSpacing :: real
  tl_color :: "color option"

definition styles_container :: container_style where
  "styles_container =
     \<lparr>c_height = 61, c_bottom = 30, c_left = 20, c_right = 20, c_borderRadius = 50,
      c_paddingHorizontal = CONTAINER_PADDING, c_borderWidth = 1.8\<rparr>"

definition styles_capsule :: capsule_style where
  "styles_capsule = \<lparr>cap_top = 2.5, cap_left = 2.5, cap_width = 92, cap_height = 52, cap_borderRadius = 30\<rparr>"

definition styles_tabContent :: tab_content_style where
  "styles_tabContent =
     \<lparr>tc_flex = 1, tc_alignItems = ''center'', tc_paddingTop = 8, tc_justifyContent = ''space-between''\<rparr>"

definition styles_tabLabel :: tab_label_style where
  "styles_tabLabel =
     \<lparr>tl_fontSize = 12, tl_marginBottom = 4, tl_fontWeight = ''regular'', tl_letterSpacing = 0,
      tl_color = None\<rparr>"

subsection \<open>Component state\<close>

datatype gesture_state = UNDETERMINED | BEGAN | ACTIVE

record bar =
  capsuleScaleX :: anim
  capsuleScaleY :: anim
  isDragging :: bool
  translateX :: anim
  startX :: px
  navstate :: nav_state
  gesture :: gesture_state

definition mount_bar :: "px \<Rightarrow> nav_state \<Rightarrow> bar" where
  "mount_bar sw state =
     \<lparr>capsuleScaleX = shared_init 1, capsuleScaleY = shared_init 1, isDragging = False,
      translateX = shared_init (real (nav_index state) * TAB_WIDTH sw),
      startX = real (nav_index state) * TAB_WIDTH sw,
      navstate = state, gesture = UNDETERMINED\<rparr>"

subsection \<open>The pan gesture's callbacks\<close>

definition onBegin :: "bar \<Rightarrow> bar" where
  "onBegin s =
     s\<lparr>isDragging := True,
       capsuleScaleX := start_anim (withTiming 1.21 150) (capsuleScaleX s),
       capsuleScaleY := start_anim (withTiming 1.35 150) (capsuleScaleY s)\<rparr>"

definition onStart :: "bar \<Rightarrow> bar" where
  "onStart s = s\<lparr>startX := cur (translateX s)\<rparr>"

definition onUpdate :: "px \<Rightarrow> px \<Rightarrow> bar \<Rightarrow> bar" where
  "onUpdate sw translationX s =
     (let newX = startX s + translationX;
          minX = 0;
          maxX = real (length TABS - 1) * TAB_WIDTH sw
      in s\<lparr>translateX := set_value (min (max newX minX) maxX) (translateX s)\<rparr>)"

definition onEnd :: "px \<Rightarrow> bar \<Rightarrow> bar" where
  "onEnd sw s =
     (let index = js_round (cur (translateX s) / TAB_WIDTH sw);
          clampedIndex = max 0 (min (int (length TABS - 1)) index)
      in s\<lparr>translateX :=
             start_anim (withTiming (real_of_int clampedIndex * TAB_WIDTH sw / 1.1) DEFAULT_DURATION) (translateX s),
           navstate := navigate (TABS ! nat clampedIndex) (navstate s),
           isDragging := False,
           capsuleScaleX := start_anim (withTiming 1 150) (capsuleScaleX s),
           capsuleScaleY := start_anim (withTiming 1 150) (capsuleScaleY s)\<rparr>)"

subsection \<open>A press on tab \<open>index\<close>\<close>

definition onPress :: "px \<Rightarrow> nat \<Rightarrow> bar \<Rightarrow> bar" where
  "onPress sw index s =
     s\<lparr>capsuleScaleX := start_anim (withSequence [withTiming 1.21 150, withTiming 1 150]) (capsuleScaleX s),
       capsuleScaleY := start_anim (withSequence [withTiming 1.35 150, withTiming 1 150]) (capsuleScaleY s),
       translateX := start_anim (withTiming (real index * TAB_WIDTH sw / 1.1) DEFAULT_DURATION) (translateX s),
       navstate := navigate (TABS ! index) (navstate s)\<rparr>"

subsection \<open>Rendering\<close>

text \<open>
  One tab button: its key, label, icon and tint. Destructuring \<open>tabMeta[tab]\<close>
  when it is undefined, or calling \<open>icons[icon]\<close> when it is not a function, throws;
  both are \<open>None\<close>.
\<close>

record tab_view =
  tv_key :: string
  tv_label :: string
  tv_icon :: string
  tv_tint :: color
  tv_content_style :: tab_content_style
  tv_label_style :: tab_label_style

record bar_view =
  bv_background :: color
  bv_border :: color
  bv_capsule_color :: color
  bv_capsule_transform :: "px \<times> real \<times> real"
  bv_tabs :: "tab_view list"

definition render_tab :: "palette \<Rightarrow> nat \<Rightarrow> nat \<times> string \<Rightarrow> tab_view option" where
  "render_tab colorScheme active it =
     (let index = fst it; tab = snd it;
          isFocused = (active = index);
          tintColor = (if isFocused then nav_icons_tinted colorScheme else nav_icons colorScheme)
      in case tabMeta tab of
           None \<Rightarrow> None
         | Some m \<Rightarrow>
             if icon m \<in> set icon_keys
             then Some \<lparr>tv_key = tab, tv_label = label m, tv_icon = icon m, tv_tint = tintColor,
                       tv_content_style = styles_tabContent,
                       tv_label_style = styles_tabLabel\<lparr>tl_color := Some tintColor\<rparr>\<rparr>
             else None)"

definition render_bar :: "scheme option \<Rightarrow> bar \<Rightarrow> bar_view option" where
  "render_bar cs s =
     (let colorScheme = Colors (scheme_or_light cs)
      in map_option
           (\<lambda>tabs. \<lparr>bv_background = nav colorScheme, bv_border = nav_border colorScheme,
                   bv_capsule_color = nav_capsule colorScheme,
                   bv_capsule_transform =
                     (cur (translateX s), cur (capsuleScaleX s), cur (capsuleScaleY s)),
                   bv_tabs = tabs\<rparr>)
           (those (map (render_tab colorScheme (nav_index (navstate s))) (enumerate 0 TABS))))"

subsection \<open>Events\<close>

datatype event =
    Pan_begin
  | Pan_start
  | Pan_update px
  | Pan_end
  | Pan_fail
  | Press nat
  | Frame real
  | Navigate_elsewhere string

fun dispatch :: "px \<Rightarrow> event \<Rightarrow> bar \<Rightarrow> bar option" where
  "dispatch sw Pan_begin s =
     (if gesture s = UNDETERMINED then Some ((onBegin s)\<lparr>gesture := BEGAN\<rparr>) else None)"
| "dispatch sw Pan_start s =
     (if gesture s = BEGAN then Some ((onStart s)\<lparr>gesture := ACTIVE\<rparr>) else None)"
| "dispatch sw (Pan_update dx) s =
     (if gesture s = ACTIVE then Some (onUpdate sw dx s) else None)"
| "dispatch sw Pan_end s =
     (if gesture s = ACTIVE then Some ((onEnd sw s)\<lparr>gesture := UNDETERMINED\<rparr>) else None)"
| "dispatch sw Pan_fail s =
     (if gesture s = BEGAN then Some (s\<lparr>gesture := UNDETERMINED\<rparr>) else None)"
| "dispatch sw (Press i) s =
     (if i < length TABS then Some (onPress sw i s) else None)"
| "dispatch sw (Frame dt) s =
     (if 0 \<le> dt
      then Some (s\<lparr>translateX := anim_frame dt (translateX s),
                   capsuleScaleX := anim_frame dt (capsuleScaleX s),
                   capsuleScaleY := anim_frame dt (capsuleScaleY s)\<rparr>)
      else None)"
| "dispatch sw (Navigate_elsewhere r) s = Some (s\<lparr>navstate := navigate r (navstate s)\<rparr>)"

fun run :: "px \<Rightarrow> event list \<Rightarrow> bar \<Rightarrow> bar option" where
  "run sw [] s = Some s"
| "run sw (e # es) s = (case dispatch sw e s of None \<Rightarrow> None | Some s' \<Rightarrow> run sw es s')"

text \<open>
  The states reachable from a mounted bar whose container starts on a valid tab, by
  events that \<open>ok\<close> admits (all events, or only those the bar itself produces).
\<close>

inductive reach :: "px \<Rightarrow> (event \<Rightarrow> bool) \<Rightarrow> bar \<Rightarrow> bool" for sw ok where
  mount: "i < length TABS \<Longrightarrow> reach sw ok (mount_bar sw (init_nav i))"
| step: "reach sw ok s \<Longrightarrow> ok e \<Longrightarrow> dispatch sw e s = Some s' \<Longrightarrow> reach sw ok s'"

definition any_event :: "event \<Rightarrow> bool" where
  "any_event e = True"

fun bar_event :: "event \<Rightarrow> bool" where
  "bar_event (Navigate_elsewhere r) = False"
| "bar_event e = True"

fun no_fail :: "event \<Rightarrow> bool" where
  "no_fail Pan_fail = False"
| "no_fail e = True"

text \<open>
  The slot \<open>onEnd\<close> snaps an offset \<open>x\<close> to (its \<open>clampedIndex\<close>), and the
  offset \<open>onPress\<close> and \<open>onEnd\<close> animate the capsule to for slot \<open>k\<close>.
\<close>

definition slot_of :: "px \<Rightarrow> px \<Rightarrow> int" where
  "slot_of sw x = max 0 (min (int (length TABS - 1)) (js_round (x / TAB_WIDTH sw)))"

definition rest_offset :: "px \<Rightarrow> real \<Rightarrow> px" where
  "rest_offset sw k = k * TAB_WIDTH sw / 1.1"

text \<open>
  Where the styles put things (flexbox layout as Yoga computes it; Yoga is not part
  of the sources). The bar is absolutely positioned \<open>left: 20\<close>, \<open>right: 20\<close> in a
  window of width \<open>sw\<close>; inside its border (\<open>borderWidth: 1.8\<close>) is its padding
  box, whose left edge is the origin for the absolutely positioned capsule
  (\<open>left: 2.5\<close>, shifted further by the transform \<open>translateX\<close>). The four tab
  buttons (\<open>flex: 1\<close>) share the content box, which is the padding box less
  \<open>paddingHorizontal\<close> on each side, equally.
\<close>

definition padding_box_width :: "px \<Rightarrow> px" where
  "padding_box_width sw =
     sw - c_left styles_container - c_right styles_container - 2 * c_borderWidth styles_container"

definition slot_width :: "px \<Rightarrow> px" where
  "slot_width sw =
     (padding_box_width sw - 2 * c_paddingHorizontal styles_container) / real (length TABS)"

definition slot_left :: "px \<Rightarrow> nat \<Rightarrow> px" where
  "slot_left sw k = c_paddingHorizontal styles_container + real k * slot_width sw"

definition capsule_left_edge :: "px \<Rightarrow> px" where
  "capsule_left_edge x = cap_left styles_capsule + x"

definition capsule_right_edge :: "px \<Rightarrow> px" where
  "capsule_right_edge x = cap_left styles_capsule + x + cap_width styles_capsule"

text \<open>
  The vertical extent of the capsule in the padding box at vertical scale \<open>sy\<close>: a
  React Native transform scales about the view's centre, so the capsule's box
  (\<open>top: 2.5\<close>, \<open>height: 52\<close>) grows by \<open>(sy - 1) * height / 2\<close> at each end. The
  padding box is the bar's \<open>height\<close> less its border at top and bottom.
\<close>

definition padding_box_height :: px where
  "padding_box_height = c_height styles_container - 2 * c_borderWidth styles_container"

definition capsule_top_edge :: "real \<Rightarrow> px" where
  "capsule_top_edge sy = cap_top styles_capsule + (1 - sy) * cap_height styles_capsule / 2"

definition capsule_bottom_edge :: "real \<Rightarrow> px" where
  "capsule_bottom_edge sy = cap_top styles_capsule + (1 + sy) * cap_height styles_capsule / 2"

fun_cases dispatch_SomeE: "dispatch sw e s = Some s'"

subsection \<open>Lemmas on the handlers\<close>

lemma TAB_WIDTH_pos: "16 < sw \<Longrightarrow> 0 < TAB_WIDTH sw"
  by (simp add: TAB_WIDTH_def CONTAINER_PADDING_def)

lemma TAB_WIDTH_nonneg: "16 \<le> sw \<Longrightarrow> 0 \<le> TAB_WIDTH sw"
  by (simp add: TAB_WIDTH_def CONTAINER_PADDING_def)

lemma js_round_rest_iff: "js_round (real k / 1.1) = int k \<longleftrightarrow> k \<le> 5"
proof -
  have "js_round (real k / 1.1) = int k \<longleftrightarrow> real k - 1/2 \<le> real k / 1.1 \<and> real k / 1.1 < real k + 1/2"
    using js_round_le_iff [of "real k / 1.1" "int k"] js_round_ge_iff [of "int k" "real k / 1.1"]
    by auto
  also have "\<dots> \<longleftrightarrow> real k \<le> 5.5" by (auto simp: field_simps)
  also have "\<dots> \<longleftrightarrow> k \<le> 5" by linarith
  finally show ?thesis .
qed

lemma rest_offset_snap:
  "0 < w \<Longrightarrow> k \<le> 5 \<Longrightarrow> js_round (real k * w / 1.1 / w) = int k"
proof -
  assume "0 < w" "k \<le> 5"
  then have eq: "real k * w / 1.1 / w = real k / 1.1" by simp
  show ?thesis unfolding eq using \<open>k \<le> 5\<close> js_round_rest_iff by blast
qed

lemma rest_offset_bounds:
  fixes c w :: real
  shows "0 \<le> w \<Longrightarrow> 0 \<le> c \<Longrightarrow> c \<le> 3 \<Longrightarrow> 0 \<le> c * w / 1.1 \<and> c * w / 1.1 \<le> 3 * w"
proof -
  assume "0 \<le> w" "0 \<le> c" "c \<le> 3"
  then have "c * w \<le> 3 * w" by (simp add: mult_right_mono)
  moreover have "3 * w / 1.1 \<le> 3 * w" using \<open>0 \<le> w\<close> by simp
  ultimately show ?thesis using \<open>0 \<le> w\<close> \<open>0 \<le> c\<close> by (auto simp: divide_right_mono)
qed

lemma slot_of_range: "0 \<le> slot_of sw x \<and> slot_of sw x \<le> 3"
  by (simp add: slot_of_def)

lemma nat_slot_of_less [simp]: "nat (slot_of sw x) < length TABS"
  using slot_of_range [of sw x] by (simp add: nat_less_iff)

lemma nat_slot_of_less_4 [simp]: "nat (slot_of sw x) < 4"
  using nat_slot_of_less [of sw x] by simp

lemma real_nat_slot_of [simp]: "real (nat (slot_of sw x)) = real_of_int (slot_of sw x)"
  using slot_of_range [of sw x] by simp

lemma onEnd_eq:
  "onEnd sw s =
     s\<lparr>translateX :=
         start_anim [(real_of_int (slot_of sw (cur (translateX s))) * TAB_WIDTH sw / 1.1, DEFAULT_DURATION)] (translateX s),
       navstate := navigate (TABS ! nat (slot_of sw (cur (translateX s)))) (navstate s),
       isDragging := False,
       capsuleScaleX := start_anim [(1, 150)] (capsuleScaleX s),
       capsuleScaleY := start_anim [(1, 150)] (capsuleScaleY s)\<rparr>"
  by (simp add: onEnd_def slot_of_def Let_def)

lemma onUpdate_eq:
  "onUpdate sw dx s =
     s\<lparr>translateX := set_value (min (max (startX s + dx) 0) (3 * TAB_WIDTH sw)) (translateX s)\<rparr>"
  by (simp add: onUpdate_def Let_def)

lemma dispatch_navstate_routes:
  "dispatch sw e s = Some s' \<Longrightarrow> nav_routes (navstate s') = nav_routes (navstate s)"
  by (erule dispatch_SomeE)
     (auto simp: onBegin_def onStart_def onUpdate_eq onEnd_eq onPress_def split: if_splits)

lemma run_reach:
  "reach sw ok s \<Longrightarrow> list_all ok es \<Longrightarrow> run sw es s = Some s' \<Longrightarrow> reach sw ok s'"
proof (induction es arbitrary: s)
  case Nil
  then show ?case by simp
next
  case (Cons e es)
  then obtain t where t: "dispatch sw e s = Some t" and r: "run sw es t = Some s'"
    by (auto split: option.splits)
  from Cons.prems(1,2) t have "reach sw ok t" by (auto intro: reach.step)
  with Cons.IH Cons.prems(2) r show ?case by simp
qed

lemmas bar_handler_simps = onBegin_def onStart_def onUpdate_eq onEnd_eq onPress_def

lemma reach_run_mount:
  "i < length TABS \<Longrightarrow> list_all ok es \<Longrightarrow> run sw es (mount_bar sw (init_nav i)) = Some s \<Longrightarrow>
   reach sw ok s"
  by (rule run_reach [OF reach.mount])

text \<open>Evaluation of runs on concrete inputs, for the witnesses.\<close>

lemmas bar_eval =
  mount_bar_def init_nav_def onBegin_def onStart_def onUpdate_def onEnd_def onPress_def
  TAB_WIDTH_def CONTAINER_PADDING_def js_round_def navigate_def tab_table_defs
  anim_frame_def set_value_def start_anim_def DEFAULT_DURATION_def ease_def

lemmas geometry_defs =
  padding_box_height_def capsule_top_edge_def capsule_bottom_edge_def padding_box_width_def slot_width_def slot_left_def capsule_left_edge_def
  capsule_right_edge_def styles_container_def styles_capsule_def

subsection \<open>Properties of the handlers\<close>

text \<open>
  C5. A press on tab \<open>i\<close> navigates to route \<open>TABS ! i\<close>, whatever tab is active
  (pressing the active tab re-runs the effects), animates the capsule to the resting
  offset \<open>i * TAB_WIDTH / 1.1\<close>, and runs the squash-and-stretch pulse
  (\<open>1.21\<close> then \<open>1\<close> horizontally, \<open>1.35\<close> then \<open>1\<close> vertically, each
  segment 150 ms; the slide takes the default 300 ms).
\<close>

theorem press_pulses_and_navigates:
  assumes "nav_routes (navstate s) = TABS" and "i < length TABS"
  shows "nav_index (navstate (onPress sw i s)) = i \<and>
         pending (translateX (onPress sw i s)) = [(real i * TAB_WIDTH sw / 1.1, 300)] \<and>
         pending (capsuleScaleX (onPress sw i s)) = [(1.21, 150), (1, 150)] \<and>
         pending (capsuleScaleY (onPress sw i s)) = [(1.35, 150), (1, 150)] \<and>
         gesture (onPress sw i s) = gesture s"
  using assms by (simp add: onPress_def DEFAULT_DURATION_def)

theorem press_pulses_and_navigates_witness:
  "nav_routes (navstate (mount_bar 400 (init_nav 2))) = TABS \<and> (2::nat) < length TABS \<and>
   nav_index (navstate (onPress 400 2 (mount_bar 400 (init_nav 2)))) = 2 \<and>
   pending (translateX (onPress 400 2 (mount_bar 400 (init_nav 2)))) = [(2 * TAB_WIDTH 400 / 1.1, 300)] \<and>
   pending (capsuleScaleX (onPress 400 2 (mount_bar 400 (init_nav 2)))) = [(1.21, 150), (1, 150)] \<and>
   pending (capsuleScaleY (onPress 400 2 (mount_bar 400 (init_nav 2)))) = [(1.35, 150), (1, 150)] \<and>
   gesture (onPress 400 2 (mount_bar 400 (init_nav 2))) = gesture (mount_bar 400 (init_nav 2))"
proof -
  have h: "nav_routes (navstate (mount_bar 400 (init_nav 2))) = TABS" "(2::nat) < length TABS"
    by (simp_all add: mount_bar_def init_nav_def)
  show ?thesis using h press_pulses_and_navigates [OF h, of 400] by simp
qed

text \<open>
  C6. A drag update sets the capsule's offset to the drag start plus the gesture's
  cumulative translation, clamped to \<open>[0, (N - 1) * TAB_WIDTH]\<close>; it cancels any
  running animation of the offset.
\<close>

theorem drag_update_clamps:
  assumes "16 \<le> sw"
  shows "cur (translateX (onUpdate sw dx s)) =
           (if startX s + dx < 0 then 0
            else if real (length TABS - 1) * TAB_WIDTH sw < startX s + dx
            then real (length TABS - 1) * TAB_WIDTH sw
            else startX s + dx) \<and>
         pending (translateX (onUpdate sw dx s)) = []"
  using TAB_WIDTH_nonneg [OF assms] by (auto simp: onUpdate_eq min_def max_def)

theorem drag_update_clamps_witness:
  "(16::real) \<le> 400 \<and>
   cur (translateX (onUpdate 400 500 (mount_bar 400 (init_nav 1)))) = 288 \<and>
   pending (translateX (onUpdate 400 500 (mount_bar 400 (init_nav 1)))) = []"
proof -
  have h: "(16::real) \<le> 400" by simp
  show ?thesis
    using drag_update_clamps [OF h, of 500 "mount_bar 400 (init_nav 1)"]
    by (simp add: mount_bar_def init_nav_def TAB_WIDTH_def CONTAINER_PADDING_def)
qed

text \<open>
  C13. Drag updates are absolute: each one recomputes the offset from the drag start
  (\<open>startX\<close>) and the cumulative translation, so a later update overrides an
  earlier one entirely.
\<close>

theorem drag_update_absolute: "onUpdate sw dx (onUpdate sw dx' s) = onUpdate sw dx s"
  by (simp add: onUpdate_eq set_value_def)

text \<open>
  C10. The resting offset \<open>k * TAB_WIDTH / 1.1\<close> of slot \<open>k\<close>, divided back by the
  tab width and rounded as \<open>onEnd\<close> does, gives \<open>k\<close> exactly when \<open>k \<le> 5\<close>:
  the divisor \<open>1.1\<close> is harmless for the four tabs, but with seven or more tabs a
  drag released where the capsule rests on tab 6 would select tab 5.
\<close>

theorem rest_offset_snap_bound:
  assumes "16 < sw"
  shows "js_round (rest_offset sw (real k) / TAB_WIDTH sw) = int k \<longleftrightarrow> k \<le> 5"
  using TAB_WIDTH_pos [OF assms] js_round_rest_iff [of k] by (simp add: rest_offset_def)

theorem rest_offset_snap_bound_witness:
  "(16::real) < 400 \<and> (js_round (rest_offset 400 (real 3) / TAB_WIDTH 400) = int 3 \<longleftrightarrow> (3::nat) \<le> 5)"
proof -
  have h: "(16::real) < 400" by simp
  show ?thesis using rest_offset_snap_bound [OF h, of 3] by simp
qed

text \<open>
  C11. The capsule's resting offset for tab \<open>k > 0\<close> is the left edge of tab
  \<open>k\<close> in the laid-out row (\<open>k * slot_width\<close> from tab 0) only for the one window
  width \<open>495.6\<close>: \<open>TAB_WIDTH\<close> ignores the bar's 20 px margins and its border,
  and the divisor \<open>1.1\<close> compensates exactly at that width only. The
  specification's "left edge aligns under the active tab" holds on no phone width.
\<close>

theorem rest_offset_misaligned_with_slots:
  assumes "0 < k"
  shows "rest_offset sw (real k) = slot_left sw k - slot_left sw 0 \<longleftrightarrow> sw = 2478 / 5"
  using assms by (auto simp: rest_offset_def geometry_defs TAB_WIDTH_def CONTAINER_PADDING_def field_simps)

theorem rest_offset_misaligned_with_slots_witness:
  "(0::nat) < 3 \<and> \<not> (rest_offset 390 (real (3::nat)) = slot_left 390 3 - slot_left 390 0)"
proof -
  have h: "(0::nat) < 3" by simp
  show ?thesis using rest_offset_misaligned_with_slots [OF h, of 390] by simp
qed

text \<open>
  C12. A drag that would take the capsule's right edge past the right end of the
  bar's padding box (\<open>startX + translationX\<close> beyond it) leaves the capsule, after
  \<open>onUpdate\<close>'s clamp to \<open>[0, (N - 1) * TAB_WIDTH]\<close>, past that end exactly when
  the window is narrower than \<open>504.4\<close> px, i.e. on every phone: the clamp's range is
  wider than the row, and the style's \<open>overflow: 'hidden'\<close> is commented out.
\<close>

theorem capsule_overflows_row_at_max_drag:
  assumes "dispatch sw (Pan_update dx) s = Some t"
    and "padding_box_width sw < capsule_right_edge (startX s + dx)"
  shows "padding_box_width sw < capsule_right_edge (cur (translateX t)) \<longleftrightarrow> sw < 2522 / 5"
proof -
  have t: "cur (translateX t) = min (max (startX s + dx) 0) (3 * TAB_WIDTH sw)"
    using assms(1) by (auto simp: onUpdate_eq split: if_splits)
  show ?thesis
    using assms(2) unfolding t
    by (auto simp: geometry_defs TAB_WIDTH_def CONTAINER_PADDING_def min_def max_def field_simps)
qed

theorem capsule_overflows_row_at_max_drag_witness:
  "\<exists>s t. run 400 [Pan_begin, Pan_start] (mount_bar 400 (init_nav 0)) = Some s \<and>
         dispatch 400 (Pan_update 1000) s = Some t \<and>
         padding_box_width 400 < capsule_right_edge (startX s + 1000) \<and>
         padding_box_width 400 < capsule_right_edge (cur (translateX t))"
proof -
  obtain s where r: "run 400 [Pan_begin, Pan_start] (mount_bar 400 (init_nav 0)) = Some s"
    by (simp add: bar_eval)
  obtain t where d: "dispatch 400 (Pan_update 1000) s = Some t"
    using r by (auto simp: bar_eval)
  have h: "padding_box_width 400 < capsule_right_edge (startX s + 1000)"
    using r by (auto simp: bar_eval geometry_defs)
  have "(400::real) < 2522 / 5" by simp
  with capsule_overflows_row_at_max_drag [OF d h] r d h show ?thesis by blast
qed

text \<open>
  C14. At mount the capsule sits at \<open>index * TAB_WIDTH\<close>, but every later snap puts
  it at \<open>index * TAB_WIDTH / 1.1\<close>: pressing the already active tab \<open>i > 0\<close>
  right after mount moves the capsule left by \<open>i * TAB_WIDTH / 11\<close>.
\<close>

theorem mount_offset_differs_from_rest:
  assumes "16 < sw" and "0 < i" and "i < length TABS"
  shows "cur (translateX (mount_bar sw (init_nav i))) = real i * TAB_WIDTH sw \<and>
         final_value (translateX (onPress sw i (mount_bar sw (init_nav i)))) = real i * TAB_WIDTH sw / 1.1 \<and>
         real i * TAB_WIDTH sw / 1.1 < real i * TAB_WIDTH sw \<and>
         nav_index (navstate (onPress sw i (mount_bar sw (init_nav i)))) = i"
  using assms TAB_WIDTH_pos [OF assms(1)]
  by (simp add: mount_bar_def init_nav_def onPress_def final_value_def)

theorem mount_offset_differs_from_rest_witness:
  "(16::real) < 390 \<and> (0::nat) < 2 \<and> (2::nat) < length TABS \<and>
   cur (translateX (mount_bar 390 (init_nav 2))) = 187 \<and>
   final_value (translateX (onPress 390 2 (mount_bar 390 (init_nav 2)))) = 170 \<and>
   (170::real) < 187 \<and>
   nav_index (navstate (onPress 390 2 (mount_bar 390 (init_nav 2)))) = 2"
proof -
  have h: "(16::real) < 390" "(0::nat) < 2" "(2::nat) < length TABS" by simp_all
  show ?thesis
    using mount_offset_differs_from_rest [OF h] by (simp add: TAB_WIDTH_def CONTAINER_PADDING_def)
qed

end
