(* ===== verification/Bar_Invariants.thy ===== *)
theory Bar_Invariants
  imports CapsuleBar
begin

text \<open>
  Invariants of the tab bar over all reachable states (\<open>reach\<close>), proved by rule
  induction from one lemma per invariant saying that \<open>dispatch\<close> keeps it:
  \<^item> \<open>in_row\<close>: the capsule's offset, its animation targets and the drag start lie in
    \<open>[0, (N - 1) * TAB_WIDTH]\<close> (any events, window wider than the padding);
  \<^item> \<open>synced\<close>: the routes are \<open>TABS\<close>, the active index is a tab, and outside an
    active drag the slot the capsule comes to rest in is the active tab (only events
    the bar itself handles; a navigation done elsewhere breaks it);
  \<^item> \<open>scale_rest\<close>: with no gesture in progress the capsule returns to scale 1 and
    \<open>isDragging\<close> is false (runs without a failed gesture; a failed one breaks it);
  \<^item> \<open>scale_bounded\<close>: the capsule's horizontal scale and every target of its
    animation lie in \<open>[1, 1.21]\<close>, the vertical ones in \<open>[1, 1.35]\<close> (any events);
  \<^item> \<open>short_anims\<close>: the slide is at most one segment of the default 300 ms,
    each scale animation at most two segments of 150 ms, and no clock is negative;
    so 18 frames at 60 Hz finish them all.
\<close>

definition in_row :: "px \<Rightarrow> bar \<Rightarrow> bool" where
  "in_row sw s \<longleftrightarrow>
     anim_between 0 (3 * TAB_WIDTH sw) (translateX s) \<and> 0 \<le> startX s \<and> startX s \<le> 3 * TAB_WIDTH sw"

definition synced :: "px \<Rightarrow> bar \<Rightarrow> bool" where
  "synced sw s \<longleftrightarrow>
     nav_routes (navstate s) = TABS \<and> nav_index (navstate s) < length TABS \<and>
     (gesture s \<noteq> ACTIVE \<longrightarrow> slot_of sw (final_value (translateX s)) = int (nav_index (navstate s)))"

definition scale_rest :: "bar \<Rightarrow> bool" where
  "scale_rest s \<longleftrightarrow>
     (if gesture s = UNDETERMINED
      then final_value (capsuleScaleX s) = 1 \<and> final_value (capsuleScaleY s) = 1 \<and> \<not> isDragging s
      else isDragging s)"

definition scale_bounded :: "bar \<Rightarrow> bool" where
  "scale_bounded s \<longleftrightarrow> anim_between 1 1.21 (capsuleScaleX s) \<and> anim_between 1 1.35 (capsuleScaleY s)"

definition short_anims :: "bar \<Rightarrow> bool" where
  "short_anims s \<longleftrightarrow>
     anim_bounded 1 DEFAULT_DURATION (translateX s) \<and> anim_bounded 2 150 (capsuleScaleX s) \<and>
     anim_bounded 2 150 (capsuleScaleY s)"

lemma slot_of_rest:
  assumes "0 < TAB_WIDTH sw" and "k < length TABS"
  shows "slot_of sw (real k * TAB_WIDTH sw / 1.1) = int k"
  using assms rest_offset_snap [of "TAB_WIDTH sw" k] by (simp add: slot_of_def)

lemma slot_of_mount:
  assumes "0 < TAB_WIDTH sw" and "k < length TABS"
  shows "slot_of sw (real k * TAB_WIDTH sw) = int k"
  using assms by (simp add: slot_of_def)

lemma in_row_mount: "16 \<le> sw \<Longrightarrow> i < length TABS \<Longrightarrow> in_row sw (mount_bar sw (init_nav i))"
  using rest_offset_bounds [of "TAB_WIDTH sw" "real i"] TAB_WIDTH_nonneg [of sw]
  by (simp add: in_row_def mount_bar_def init_nav_def anim_between_def mult_right_mono)

lemma in_row_step:
  assumes "16 \<le> sw" and "in_row sw s" and "dispatch sw e s = Some s'"
  shows "in_row sw s'"
proof -
  have w: "0 \<le> TAB_WIDTH sw" using assms(1) by (rule TAB_WIDTH_nonneg)
  from assms(2) have cur: "0 \<le> cur (translateX s)" "cur (translateX s) \<le> 3 * TAB_WIDTH sw"
    by (simp_all add: in_row_def anim_between_def)
  show ?thesis
  proof (cases e)
    case (Pan_update dx)
    with assms(2,3) w show ?thesis by (auto simp: in_row_def onUpdate_eq split: if_splits)
  next
    case Pan_end
    let ?k = "real_of_int (slot_of sw (cur (translateX s)))"
    have "0 \<le> ?k" "?k \<le> 3"
      using slot_of_range [of sw "cur (translateX s)"] by simp_all
    with w have "0 \<le> ?k * TAB_WIDTH sw / 1.1 \<and> ?k * TAB_WIDTH sw / 1.1 \<le> 3 * TAB_WIDTH sw"
      by (rule rest_offset_bounds)
    with Pan_end assms(2,3) show ?thesis
      by (auto simp: in_row_def onEnd_eq anim_between_def split: if_splits)
  next
    case (Press i)
    with assms(2,3) w show ?thesis
      using rest_offset_bounds [of "TAB_WIDTH sw" "real i"]
      by (auto simp: in_row_def onPress_def anim_between_def split: if_splits)
  next
    case (Frame dt)
    with assms(2,3) show ?thesis by (auto simp: in_row_def intro: anim_frame_between split: if_splits)
  qed (use assms(2,3) cur in \<open>auto simp: in_row_def onBegin_def onStart_def split: if_splits\<close>)
qed

lemma reach_in_row: "reach sw ok s \<Longrightarrow> 16 \<le> sw \<Longrightarrow> in_row sw s"
proof (induction rule: reach.induct)
  case (mount i)
  then show ?case by (simp add: in_row_mount)
next
  case (step s e s')
  then show ?case by (blast intro: in_row_step)
qed

lemma synced_mount: "16 < sw \<Longrightarrow> i < length TABS \<Longrightarrow> synced sw (mount_bar sw (init_nav i))"
  using slot_of_mount [of sw i] TAB_WIDTH_pos [of sw]
  by (simp add: synced_def mount_bar_def init_nav_def final_value_def)

lemma synced_step:
  assumes "16 < sw" and "synced sw s" and "bar_event e" and "dispatch sw e s = Some s'"
  shows "synced sw s'"
proof -
  have w: "0 < TAB_WIDTH sw" using assms(1) by (rule TAB_WIDTH_pos)
  from assms(2) have routes: "nav_routes (navstate s) = TABS" and idx: "nav_index (navstate s) < length TABS"
    by (simp_all add: synced_def)
  show ?thesis
  proof (cases e)
    case Pan_end
    let ?k = "nat (slot_of sw (cur (translateX s)))"
    have "slot_of sw (real ?k * TAB_WIDTH sw / 1.1) = int ?k"
      by (rule slot_of_rest [OF w nat_slot_of_less])
    with Pan_end assms(4) routes show ?thesis
      using slot_of_range [of sw "cur (translateX s)"]
      by (auto simp: synced_def onEnd_eq split: if_splits)
  next
    case (Press i)
    with assms(4) have "i < length TABS" by (simp split: if_splits)
    then have "slot_of sw (real i * TAB_WIDTH sw / 1.1) = int i"
      using w by (rule slot_of_rest [rotated])
    with Press assms(4) routes \<open>i < length TABS\<close> show ?thesis
      by (auto simp: synced_def onPress_def split: if_splits)
  next
    case (Navigate_elsewhere r)
    with assms(3) show ?thesis by simp
  qed (use assms(2,4) in \<open>auto simp: synced_def onBegin_def onStart_def onUpdate_eq split: if_splits\<close>)
qed

lemma reach_synced: "reach sw bar_event s \<Longrightarrow> 16 < sw \<Longrightarrow> synced sw s"
proof (induction rule: reach.induct)
  case (mount i)
  then show ?case by (simp add: synced_mount)
next
  case (step s e s')
  then show ?case by (blast intro: synced_step)
qed

lemma reach_routes: "reach sw ok s \<Longrightarrow> nav_routes (navstate s) = TABS"
proof (induction rule: reach.induct)
  case (mount i)
  then show ?case by (simp add: mount_bar_def init_nav_def)
next
  case (step s e s')
  then show ?case by (simp add: dispatch_navstate_routes)
qed

lemma short_anims_step:
  assumes "short_anims s" and "dispatch sw e s = Some s'"
  shows "short_anims s'"
proof (cases e)
  case (Frame dt)
  with assms show ?thesis by (auto simp: short_anims_def intro: anim_bounded_frame split: if_splits)
qed (use assms in \<open>auto simp: short_anims_def anim_bounded_def bar_handler_simps DEFAULT_DURATION_def
                        split: if_splits\<close>)

lemma reach_short_anims: "reach sw ok s \<Longrightarrow> short_anims s"
proof (induction rule: reach.induct)
  case (mount i)
  then show ?case by (simp add: short_anims_def anim_bounded_def mount_bar_def)
next
  case (step s e s')
  then show ?case by (blast intro: short_anims_step)
qed

lemma run_frames:
  "0 \<le> dt \<Longrightarrow>
   run sw (replicate n (Frame dt)) s =
     Some (s\<lparr>translateX := (anim_frame dt ^^ n) (translateX s),
             capsuleScaleX := (anim_frame dt ^^ n) (capsuleScaleX s),
             capsuleScaleY := (anim_frame dt ^^ n) (capsuleScaleY s)\<rparr>)"
  by (induction n arbitrary: s) (simp_all add: funpow_Suc_right del: funpow.simps)

text \<open>At 60 frames a second (\<open>1000 / 60\<close> ms a frame) a segment of 300 ms takes 18
  frames and one of 150 ms takes 9.\<close>

lemma frames_60Hz: "seg_frames (1000 / 60) DEFAULT_DURATION = 18" "seg_frames (1000 / 60) 150 = 9"
  by (simp_all add: seg_frames_def DEFAULT_DURATION_def)

lemma scale_rest_mount: "scale_rest (mount_bar sw st)"
  by (simp add: scale_rest_def mount_bar_def final_value_def)

lemma scale_rest_step:
  assumes "scale_rest s" and "no_fail e" and "dispatch sw e s = Some s'"
  shows "scale_rest s'"
proof (cases e)
  case Pan_fail
  with assms(2) show ?thesis by simp
next
  case (Press i)
  with assms(1,3) show ?thesis by (auto simp: scale_rest_def onPress_def split: if_splits)
qed (use assms(1,3) in \<open>auto simp: scale_rest_def onBegin_def onStart_def onUpdate_eq onEnd_eq split: if_splits\<close>)

lemma reach_scale_rest: "reach sw no_fail s \<Longrightarrow> scale_rest s"
proof (induction rule: reach.induct)
  case (mount i)
  show ?case by (rule scale_rest_mount)
next
  case (step s e s')
  then show ?case by (blast intro: scale_rest_step)
qed

lemma scale_bounded_step:
  assumes "scale_bounded s" and "dispatch sw e s = Some s'"
  shows "scale_bounded s'"
proof (cases e)
  case (Frame dt)
  with assms show ?thesis by (auto simp: scale_bounded_def intro: anim_frame_between split: if_splits)
qed (use assms in \<open>auto simp: scale_bounded_def anim_between_def bar_handler_simps split: if_splits\<close>)

lemma reach_scale_bounded: "reach sw ok s \<Longrightarrow> scale_bounded s"
proof (induction rule: reach.induct)
  case (mount i)
  then show ?case by (simp add: scale_bounded_def anim_between_def mount_bar_def)
next
  case (step s e s')
  then show ?case by (blast intro: scale_bounded_step)
qed

subsection \<open>Properties over reachable states\<close>

text \<open>
  C1. Whatever interleaving of pan gestures, presses, animation frames and outside
  navigations has happened, the capsule's offset \<open>translateX\<close> and every target of
  its running animation lie in \<open>[0, (N - 1) * TAB_WIDTH]\<close>, on every window wider
  than the 16 px of padding (at exactly 16 px the drag end computes \<open>NaN\<close>, C24).
\<close>

theorem translateX_stays_in_row:
  assumes "reach sw ok s" and "16 < sw"
  shows "anim_between 0 (real (length TABS - 1) * TAB_WIDTH sw) (translateX s)"
  using reach_in_row [OF assms(1) less_imp_le [OF assms(2)]] by (simp add: in_row_def)

theorem translateX_stays_in_row_witness:
  "(case run 400 [Pan_begin, Pan_start, Pan_update 1000, Frame 16] (mount_bar 400 (init_nav 1)) of
      None \<Rightarrow> False
    | Some s \<Rightarrow> reach 400 any_event s \<and> (16::real) < 400 \<and>
                anim_between 0 (real (length TABS - 1) * TAB_WIDTH 400) (translateX s))"
proof (cases "run 400 [Pan_begin, Pan_start, Pan_update 1000, Frame 16] (mount_bar 400 (init_nav 1))")
  case None
  then show ?thesis by (simp add: bar_eval)
next
  case (Some s)
  have r: "reach 400 any_event s" using reach_run_mount [OF _ _ Some] by (simp add: any_event_def)
  have "(16::real) < 400" by simp
  with Some r translateX_stays_in_row [OF r] show ?thesis by simp
qed

text \<open>
  C2. When a drag ends, the bar navigates to the slot nearest to the capsule's
  offset, \<open>clamp(round(x / TAB_WIDTH), 0, N - 1)\<close> with the specification's
  rounding (half away from zero; \<open>Math.round\<close> agrees with it here because the
  offset is never negative), animates the capsule to that slot's resting offset,
  restores the capsule's scale and clears \<open>isDragging\<close>.
\<close>

theorem drag_end_snaps_to_nearest_tab:
  assumes "reach sw ok s" and "16 < sw" and "dispatch sw Pan_end s = Some s'"
  shows "int (nav_index (navstate s')) =
           max 0 (min (int (length TABS) - 1) (round_half_away (cur (translateX s) / TAB_WIDTH sw))) \<and>
         final_value (translateX s') = real (nav_index (navstate s')) * TAB_WIDTH sw / 1.1 \<and>
         final_value (capsuleScaleX s') = 1 \<and> final_value (capsuleScaleY s') = 1 \<and>
         \<not> isDragging s' \<and> gesture s' = UNDETERMINED"
proof -
  have w: "0 < TAB_WIDTH sw" using assms(2) by (rule TAB_WIDTH_pos)
  have "in_row sw s" using assms(1) assms(2) by (simp add: reach_in_row)
  then have "0 \<le> cur (translateX s) / TAB_WIDTH sw" using w by (simp add: in_row_def anim_between_def)
  then have rnd: "round_half_away (cur (translateX s) / TAB_WIDTH sw) = js_round (cur (translateX s) / TAB_WIDTH sw)"
    by (rule round_half_away_nonneg)
  have routes: "nav_routes (navstate s) = TABS" using assms(1) by (rule reach_routes)
  from assms(3) have s': "s' = (onEnd sw s)\<lparr>gesture := UNDETERMINED\<rparr>" by (simp split: if_splits)
  show ?thesis
    using routes slot_of_range [of sw "cur (translateX s)"]
    by (simp add: s' onEnd_eq rnd slot_of_def final_value_def)
qed

theorem drag_end_snaps_to_nearest_tab_witness:
  "(case run 400 [Pan_begin, Pan_start, Pan_update 150] (mount_bar 400 (init_nav 0)) of
      None \<Rightarrow> False
    | Some s \<Rightarrow>
        (case dispatch 400 Pan_end s of
           None \<Rightarrow> False
         | Some s' \<Rightarrow> reach 400 any_event s \<and> (16::real) < 400 \<and>
             int (nav_index (navstate s')) = 2 \<and>
             int (nav_index (navstate s')) =
               max 0 (min (int (length TABS) - 1) (round_half_away (cur (translateX s) / TAB_WIDTH 400))) \<and>
             final_value (translateX s') = real (nav_index (navstate s')) * TAB_WIDTH 400 / 1.1 \<and>
             final_value (capsuleScaleX s') = 1 \<and> final_value (capsuleScaleY s') = 1 \<and>
             \<not> isDragging s' \<and> gesture s' = UNDETERMINED))"
proof (cases "run 400 [Pan_begin, Pan_start, Pan_update 150] (mount_bar 400 (init_nav 0))")
  case None
  then show ?thesis by (simp add: bar_eval)
next
  case (Some s)
  have r: "reach 400 any_event s" using reach_run_mount [OF _ _ Some] by (simp add: any_event_def)
  show ?thesis
  proof (cases "dispatch 400 Pan_end s")
    case None
    with Some show ?thesis by (auto simp: bar_eval)
  next
    case (Some s')
    have "(16::real) < 400" by simp
    note c = drag_end_snaps_to_nearest_tab [OF r this Some]
    have "int (nav_index (navstate s')) = 2"
      using \<open>run _ _ _ = Some s\<close> Some by (auto simp: bar_eval slot_of_def)
    with Some \<open>run _ _ _ = Some s\<close> r c show ?thesis by simp
  qed
qed

text \<open>
  C3. In every state reached by events the bar handles itself (gestures, presses,
  frames), outside an active drag the slot in which the capsule's animation comes to
  rest (snapped as \<open>onEnd\<close> snaps) is the active route's index.
\<close>

theorem capsule_tracks_active_tab:
  assumes "reach sw bar_event s" and "16 < sw" and "gesture s \<noteq> ACTIVE"
  shows "slot_of sw (final_value (translateX s)) = int (nav_index (navstate s))"
  using reach_synced [OF assms(1,2)] assms(3) by (simp add: synced_def)

theorem capsule_tracks_active_tab_witness:
  "(case run 400 [Press 3, Frame 16] (mount_bar 400 (init_nav 0)) of
      None \<Rightarrow> False
    | Some s \<Rightarrow> reach 400 bar_event s \<and> (16::real) < 400 \<and> gesture s \<noteq> ACTIVE \<and>
                slot_of 400 (final_value (translateX s)) = int (nav_index (navstate s)))"
proof (cases "run 400 [Press 3, Frame 16] (mount_bar 400 (init_nav 0))")
  case None
  then show ?thesis by (simp add: bar_eval)
next
  case (Some s)
  have r: "reach 400 bar_event s" using reach_run_mount [OF _ _ Some] by simp
  have g: "gesture s \<noteq> ACTIVE" using Some by (auto simp: bar_eval)
  have "(16::real) < 400" by simp
  with Some r g capsule_tracks_active_tab [OF r this g] show ?thesis by simp
qed

text \<open>
  C4. Grabbing the resting capsule and releasing it without moving it
  (\<open>onBegin\<close>, \<open>onStart\<close>, \<open>onEnd\<close> with no update) keeps the active tab.
\<close>

theorem tap_drag_keeps_active_tab:
  assumes "reach sw bar_event s" and "16 < sw" and "gesture s = UNDETERMINED"
    and "pending (translateX s) = []"
    and "run sw [Pan_begin, Pan_start, Pan_end] s = Some s'"
  shows "nav_index (navstate s') = nav_index (navstate s)"
proof -
  have sy: "synced sw s" using assms(1,2) by (rule reach_synced)
  then have slot: "slot_of sw (cur (translateX s)) = int (nav_index (navstate s))"
    and routes: "nav_routes (navstate s) = TABS"
    using assms(3,4) by (simp_all add: synced_def final_value_def)
  have "nav_index (navstate s') = nat (slot_of sw (cur (translateX s)))"
    using assms(3,5) routes by (auto simp: bar_handler_simps)
  with slot show ?thesis by simp
qed

theorem tap_drag_keeps_active_tab_witness:
  "(case run 400 [Press 2, Frame 300] (mount_bar 400 (init_nav 0)) of
      None \<Rightarrow> False
    | Some s \<Rightarrow>
        (case run 400 [Pan_begin, Pan_start, Pan_end] s of
           None \<Rightarrow> False
         | Some s' \<Rightarrow> reach 400 bar_event s \<and> (16::real) < 400 \<and> gesture s = UNDETERMINED \<and>
             pending (translateX s) = [] \<and> nav_index (navstate s) = 2 \<and>
             nav_index (navstate s') = nav_index (navstate s)))"
proof (cases "run 400 [Press 2, Frame 300] (mount_bar 400 (init_nav 0))")
  case None
  then show ?thesis by (simp add: bar_eval)
next
  case (Some s)
  have r: "reach 400 bar_event s" using reach_run_mount [OF _ _ Some] by simp
  have st: "gesture s = UNDETERMINED" "pending (translateX s) = []" "nav_index (navstate s) = 2"
    using Some by (auto simp: bar_eval)
  show ?thesis
  proof (cases "run 400 [Pan_begin, Pan_start, Pan_end] s")
    case None
    with st show ?thesis by (simp add: bar_eval)
  next
    case (Some s')
    have "(16::real) < 400" by simp
    note c = tap_drag_keeps_active_tab [OF r this st(1,2) Some]
    with Some \<open>run _ _ _ = Some s\<close> r st show ?thesis by simp
  qed
qed

text \<open>
  C7. In runs where no pan gesture fails before activating, whenever no gesture is in
  progress the capsule's scale animations end at 1 and \<open>isDragging\<close> is false.
\<close>

theorem scale_restored_without_failed_gestures:
  assumes "reach sw no_fail s" and "gesture s = UNDETERMINED"
  shows "final_value (capsuleScaleX s) = 1 \<and> final_value (capsuleScaleY s) = 1 \<and> \<not> isDragging s"
  using reach_scale_rest [OF assms(1)] assms(2) by (simp add: scale_rest_def)

theorem scale_restored_without_failed_gestures_witness:
  "(case run 400 [Pan_begin, Pan_start, Pan_update 30, Press 1, Pan_end] (mount_bar 400 (init_nav 0)) of
      None \<Rightarrow> False
    | Some s \<Rightarrow> reach 400 no_fail s \<and> gesture s = UNDETERMINED \<and>
                final_value (capsuleScaleX s) = 1 \<and> final_value (capsuleScaleY s) = 1 \<and> \<not> isDragging s)"
proof (cases "run 400 [Pan_begin, Pan_start, Pan_update 30, Press 1, Pan_end] (mount_bar 400 (init_nav 0))")
  case None
  then show ?thesis by (simp add: bar_eval)
next
  case (Some s)
  have r: "reach 400 no_fail s" using reach_run_mount [OF _ _ Some] by simp
  have g: "gesture s = UNDETERMINED" using Some by (auto simp: bar_eval)
  with Some r scale_restored_without_failed_gestures [OF r g] show ?thesis by simp
qed

text \<open>
  C8. A pan that begins and then fails before activating (a touch on the capsule that
  never becomes a drag) runs \<open>onBegin\<close> but never \<open>onEnd\<close>: once its animation
  has finished, the capsule stays enlarged (\<open>1.21 \<times> 1.35\<close>) and \<open>isDragging\<close>
  stays true with no gesture in progress.
\<close>

theorem failed_pan_leaves_capsule_enlarged:
  "\<exists>s. reach sw any_event s \<and> gesture s = UNDETERMINED \<and> isDragging s \<and>
       pending (capsuleScaleX s) = [] \<and> cur (capsuleScaleX s) = 1.21 \<and>
       pending (capsuleScaleY s) = [] \<and> cur (capsuleScaleY s) = 1.35"
proof (cases "run sw [Pan_begin, Pan_fail, Frame 300] (mount_bar sw (init_nav 0))")
  case None
  then show ?thesis by (simp add: bar_eval)
next
  case (Some s)
  have r: "reach sw any_event s" using reach_run_mount [OF _ _ Some] by (simp add: any_event_def)
  moreover have "gesture s = UNDETERMINED \<and> isDragging s \<and>
       pending (capsuleScaleX s) = [] \<and> cur (capsuleScaleX s) = 1.21 \<and>
       pending (capsuleScaleY s) = [] \<and> cur (capsuleScaleY s) = 1.35"
    using Some by (auto simp: bar_eval)
  ultimately show ?thesis by blast
qed

theorem failed_pan_leaves_capsule_enlarged_witness:
  "\<exists>s. reach 390 any_event s \<and> gesture s = UNDETERMINED \<and> isDragging s \<and>
       pending (capsuleScaleX s) = [] \<and> cur (capsuleScaleX s) = 1.21 \<and>
       pending (capsuleScaleY s) = [] \<and> cur (capsuleScaleY s) = 1.35"
  by (rule failed_pan_leaves_capsule_enlarged)

text \<open>
  C9. The capsule is positioned from the active route only at mount: after a
  navigation done elsewhere (a link, the back button), with every animation finished
  and no gesture in progress, the capsule rests on a different tab from the one
  highlighted as active.
\<close>

theorem outside_navigation_desyncs_capsule:
  assumes "16 < sw"
  shows "\<exists>s. reach sw any_event s \<and> gesture s = UNDETERMINED \<and> pending (translateX s) = [] \<and>
             slot_of sw (cur (translateX s)) \<noteq> int (nav_index (navstate s))"
proof (cases "run sw [Navigate_elsewhere ''camera''] (mount_bar sw (init_nav 0))")
  case None
  then show ?thesis by (simp add: bar_eval)
next
  case (Some s)
  have r: "reach sw any_event s" using reach_run_mount [OF _ _ Some] by (simp add: any_event_def)
  have w: "0 < TAB_WIDTH sw" using assms by (rule TAB_WIDTH_pos)
  have "gesture s = UNDETERMINED \<and> pending (translateX s) = [] \<and> cur (translateX s) = 0 \<and>
        nav_index (navstate s) = 1"
    using Some by (auto simp: bar_eval)
  moreover have "slot_of sw 0 = 0" by (simp add: slot_of_def)
  ultimately show ?thesis using r by force
qed

theorem outside_navigation_desyncs_capsule_witness:
  "(16::real) < 400 \<and>
   (\<exists>s. reach 400 any_event s \<and> gesture s = UNDETERMINED \<and> pending (translateX s) = [] \<and>
        slot_of 400 (cur (translateX s)) \<noteq> int (nav_index (navstate s)))"
proof -
  have h: "(16::real) < 400" by simp
  show ?thesis using h outside_navigation_desyncs_capsule [OF h] by blast
qed

text \<open>
  C15. In every reachable state, 18 frames at 60 frames a second (300 ms) finish
  every animation the bar has started: the slide is one segment of the default
  300 ms, every scale animation at most two segments of 150 ms (the press pulse).
  Each shared value is left at the target it was heading for, with the active tab
  and the gesture untouched.
\<close>

theorem animations_finish_in_18_frames:
  assumes "reach sw ok s"
  shows "\<exists>s'. run sw (replicate 18 (Frame (1000 / 60))) s = Some s' \<and>
           pending (translateX s') = [] \<and> cur (translateX s') = final_value (translateX s) \<and>
           pending (capsuleScaleX s') = [] \<and> cur (capsuleScaleX s') = final_value (capsuleScaleX s) \<and>
           pending (capsuleScaleY s') = [] \<and> cur (capsuleScaleY s') = final_value (capsuleScaleY s) \<and>
           navstate s' = navstate s \<and> gesture s' = gesture s"
proof -
  let ?dt = "1000 / 60 :: real"
  have dt: "0 < ?dt" by simp
  have "short_anims s" using assms by (rule reach_short_anims)
  then have "frames_left ?dt (translateX s) \<le> 18" "frames_left ?dt (capsuleScaleX s) \<le> 18"
    "frames_left ?dt (capsuleScaleY s) \<le> 18"
    using frames_left_bounded [OF dt] frames_60Hz by (fastforce simp: short_anims_def)+
  then have "(anim_frame ?dt ^^ 18) (translateX s) = settle (translateX s)"
    "(anim_frame ?dt ^^ 18) (capsuleScaleX s) = settle (capsuleScaleX s)"
    "(anim_frame ?dt ^^ 18) (capsuleScaleY s) = settle (capsuleScaleY s)"
    by (blast intro: animation_settles [OF dt])+
  then show ?thesis by (simp add: run_frames)
qed

theorem animations_finish_in_18_frames_witness:
  "(case run 400 [Pan_begin, Press 3] (mount_bar 400 (init_nav 0)) of
      None \<Rightarrow> False
    | Some s \<Rightarrow> reach 400 any_event s \<and>
        (\<exists>s'. run 400 (replicate 18 (Frame (1000 / 60))) s = Some s' \<and>
           pending (translateX s') = [] \<and> cur (translateX s') = final_value (translateX s) \<and>
           pending (capsuleScaleX s') = [] \<and> cur (capsuleScaleX s') = final_value (capsuleScaleX s) \<and>
           pending (capsuleScaleY s') = [] \<and> cur (capsuleScaleY s') = final_value (capsuleScaleY s) \<and>
           navstate s' = navstate s \<and> gesture s' = gesture s))"
proof (cases "run 400 [Pan_begin, Press 3] (mount_bar 400 (init_nav 0))")
  case None
  then show ?thesis by (simp add: bar_eval)
next
  case (Some s)
  have r: "reach 400 any_event s" using reach_run_mount [OF _ _ Some] by (simp add: any_event_def)
  with Some animations_finish_in_18_frames [OF r] show ?thesis by (simp)
qed

text \<open>
  C22. The tap's animations last exactly 300 ms at 60 frames a second: the
  squash-and-stretch pulse (two segments of 150 ms) and the slide (the default
  300 ms) are still running after 17 frames and finished after 18; the pulse of
  \<open>onBegin\<close> (150 ms) takes 9.
\<close>

theorem tap_animations_take_18_frames:
  "pending ((anim_frame (1000 / 60) ^^ 17) (capsuleScaleY (onPress sw i s))) \<noteq> [] \<and>
   (anim_frame (1000 / 60) ^^ 18) (capsuleScaleY (onPress sw i s)) = settle (capsuleScaleY (onPress sw i s)) \<and>
   pending ((anim_frame (1000 / 60) ^^ 17) (translateX (onPress sw i s))) \<noteq> [] \<and>
   (anim_frame (1000 / 60) ^^ 18) (translateX (onPress sw i s)) = settle (translateX (onPress sw i s)) \<and>
   pending ((anim_frame (1000 / 60) ^^ 8) (capsuleScaleY (onBegin s))) \<noteq> [] \<and>
   (anim_frame (1000 / 60) ^^ 9) (capsuleScaleY (onBegin s)) = settle (capsuleScaleY (onBegin s))"
proof -
  let ?dt = "1000 / 60 :: real"
  have dt: "0 < ?dt" by simp
  have f: "frames_left ?dt (capsuleScaleY (onPress sw i s)) = 18"
    "frames_left ?dt (translateX (onPress sw i s)) = 18"
    "frames_left ?dt (capsuleScaleY (onBegin s)) = 9"
    using frames_60Hz by (simp_all add: onPress_def onBegin_def frames_left_start DEFAULT_DURATION_def)
  have run: "pending ((anim_frame ?dt ^^ n) a) \<noteq> []" if "n < frames_left ?dt a" for a n
    using that frames_left_funpow [OF dt, of n a] frames_left_pos [OF dt, of "(anim_frame ?dt ^^ n) a"]
    by simp
  have fin: "(anim_frame ?dt ^^ n) a = settle a" if "frames_left ?dt a \<le> n" for a n
    using that by (rule animation_settles [OF dt])
  show ?thesis
    by (intro conjI run fin) (use f in simp_all)
qed

text \<open>
  C25. The capsule's pulses stay within their peaks: in every reachable state,
  whatever interleaving of gestures, presses, frames and outside navigations led
  there, the horizontal scale and every target it is animating to lie in
  \<open>[1, 1.21]\<close> and the vertical ones in \<open>[1, 1.35]\<close>. The eased frames never
  overshoot, and no handler starts a scale animation outside these bounds.
\<close>

theorem capsule_scale_within_pulse:
  assumes "reach sw ok s"
  shows "anim_between 1 1.21 (capsuleScaleX s) \<and> anim_between 1 1.35 (capsuleScaleY s)"
  using reach_scale_bounded [OF assms] by (simp add: scale_bounded_def)

theorem capsule_scale_within_pulse_witness:
  "\<exists>s. run 400 [Press 2, Frame 100, Pan_begin, Frame 100] (mount_bar 400 (init_nav 0)) = Some s \<and>
       reach 400 any_event s \<and>
       anim_between 1 1.21 (capsuleScaleX s) \<and> anim_between 1 1.35 (capsuleScaleY s)"
proof -
  obtain s where r: "run 400 [Press 2, Frame 100, Pan_begin, Frame 100] (mount_bar 400 (init_nav 0)) = Some s"
    by (simp add: bar_eval)
  have q: "reach 400 any_event s" using reach_run_mount [OF _ _ r] by (simp add: any_event_def)
  show ?thesis using r q capsule_scale_within_pulse [OF q] by blast
qed

end
