(* ===== verification/Selector_Refinement.thy ===== *)
theory Selector_Refinement
  imports Bar_Invariants
begin

text \<open>
  The contract of the tab bar as the specification states it (section 4.1), as an
  abstract machine whose state is the active tab: a tap on tab \<open>i\<close> selects
  \<open>i\<close>, the end of a drag at offset \<open>x\<close> selects
  \<open>clamp(round(x / slot width), 0, N - 1)\<close> (rounding half away from zero), a
  navigation to a known route selects it, and nothing else changes the selection.
  \<open>cmd_of\<close> maps each concrete event to the abstract command it must perform;
  the refinement theorem says \<open>dispatch\<close> performs exactly that command on the
  container's active index, from every reachable state.
\<close>

datatype tab_cmd = Select nat | Keep

definition tab_select :: "nat \<Rightarrow> tab_cmd \<Rightarrow> nat" where
  "tab_select a c = (case c of Select k \<Rightarrow> k | Keep \<Rightarrow> a)"

definition valid_cmd :: "tab_cmd \<Rightarrow> bool" where
  "valid_cmd c = (case c of Select k \<Rightarrow> k < length TABS | Keep \<Rightarrow> True)"

fun cmd_of :: "px \<Rightarrow> bar \<Rightarrow> event \<Rightarrow> tab_cmd" where
  "cmd_of sw s (Press i) = Select i"
| "cmd_of sw s Pan_end =
     Select (nat (max 0 (min (int (length TABS) - 1) (round_half_away (cur (translateX s) / TAB_WIDTH sw)))))"
| "cmd_of sw s (Navigate_elsewhere r) = (case pos_of TABS r of None \<Rightarrow> Keep | Some k \<Rightarrow> Select k)"
| "cmd_of sw s e = Keep"

text \<open>The abstract commands of a run, each computed in the state the event meets.\<close>

fun cmds_of :: "px \<Rightarrow> bar \<Rightarrow> event list \<Rightarrow> tab_cmd list" where
  "cmds_of sw s [] = []"
| "cmds_of sw s (e # es) =
     (case dispatch sw e s of None \<Rightarrow> [] | Some s' \<Rightarrow> cmd_of sw s e # cmds_of sw s' es)"

lemma round_half_away_slot:
  assumes "in_row sw s" and "16 < sw"
  shows "max 0 (min (int (length TABS) - 1) (round_half_away (cur (translateX s) / TAB_WIDTH sw))) =
         slot_of sw (cur (translateX s))"
proof -
  have "0 \<le> cur (translateX s) / TAB_WIDTH sw"
    using assms TAB_WIDTH_pos [OF assms(2)] by (simp add: in_row_def anim_between_def)
  then show ?thesis by (simp add: round_half_away_nonneg slot_of_def)
qed

text \<open>
  One step: from a reachable state, each event changes the container's active index
  exactly as the abstract selector performs the event's command, and the command
  selects an existing tab. Pan begin, start, update and failure and animation frames
  never change the active tab.
\<close>

lemma dispatch_refines_tab_selector:
  assumes "reach sw ok s" and "16 < sw" and "dispatch sw e s = Some s'"
  shows "nav_index (navstate s') = tab_select (nav_index (navstate s)) (cmd_of sw s e) \<and>
         valid_cmd (cmd_of sw s e)"
proof -
  have routes: "nav_routes (navstate s) = TABS" using assms(1) by (rule reach_routes)
  have row: "in_row sw s" using assms(1,2) by (simp add: reach_in_row)
  show ?thesis
  proof (cases e)
    case Pan_end
    with assms(3) routes round_half_away_slot [OF row assms(2)] show ?thesis
      by (auto simp: onEnd_eq tab_select_def valid_cmd_def split: if_splits)
  next
    case (Press i)
    with assms(3) routes show ?thesis
      by (auto simp: onPress_def tab_select_def valid_cmd_def split: if_splits)
  next
    case (Navigate_elsewhere r)
    show ?thesis
    proof (cases "pos_of TABS r")
      case None
      with Navigate_elsewhere assms(3) routes show ?thesis
        by (auto simp: navigate_def tab_select_def valid_cmd_def)
    next
      case (Some k)
      then have "k < length TABS" by (simp add: pos_of_Some_iff)
      with Some Navigate_elsewhere assms(3) routes show ?thesis
        by (auto simp: navigate_def tab_select_def valid_cmd_def)
    qed
  qed (use assms(3) in \<open>auto simp: tab_select_def valid_cmd_def onBegin_def onStart_def onUpdate_eq split: if_splits\<close>)
qed

text \<open>
  C17. Refinement over runs: from every reachable state, a run of events admitted
  by \<open>ok\<close> ends with the container's active index that the abstract selector
  reaches by performing the run's commands in order, and every command selects an
  existing tab.
\<close>

theorem run_refines_tab_selector:
  assumes "reach sw ok s" and "16 < sw" and "list_all ok es" and "run sw es s = Some s'"
  shows "nav_index (navstate s') = foldl tab_select (nav_index (navstate s)) (cmds_of sw s es) \<and>
         list_all valid_cmd (cmds_of sw s es)"
  using assms
proof (induction es arbitrary: s)
  case Nil
  then show ?case by simp
next
  case (Cons e es)
  then obtain t where t: "dispatch sw e s = Some t" and r: "run sw es t = Some s'"
    by (auto split: option.splits)
  have rt: "reach sw ok t" using Cons.prems(1,3) t by (auto intro: reach.step)
  have step: "nav_index (navstate t) = tab_select (nav_index (navstate s)) (cmd_of sw s e) \<and>
              valid_cmd (cmd_of sw s e)"
    using Cons.prems(1,2) t by (rule dispatch_refines_tab_selector)
  have "nav_index (navstate s') = foldl tab_select (nav_index (navstate t)) (cmds_of sw t es) \<and>
        list_all valid_cmd (cmds_of sw t es)"
    using Cons.IH [OF rt Cons.prems(2)] Cons.prems(3) r by simp
  with step t show ?case by simp
qed

theorem run_refines_tab_selector_witness:
  "(case run 400 [Press 2, Pan_begin, Pan_start, Pan_update 250, Frame 16, Pan_end] (mount_bar 400 (init_nav 0)) of
      None \<Rightarrow> False
    | Some s' \<Rightarrow> reach 400 bar_event (mount_bar 400 (init_nav 0)) \<and> (16::real) < 400 \<and>
        list_all bar_event [Press 2, Pan_begin, Pan_start, Pan_update 250, Frame 16, Pan_end] \<and>
        cmds_of 400 (mount_bar 400 (init_nav 0)) [Press 2, Pan_begin, Pan_start, Pan_update 250, Frame 16, Pan_end]
          = [Select 2, Keep, Keep, Keep, Keep, Select 3] \<and>
        nav_index (navstate s') =
          foldl tab_select (nav_index (navstate (mount_bar 400 (init_nav 0))))
            (cmds_of 400 (mount_bar 400 (init_nav 0)) [Press 2, Pan_begin, Pan_start, Pan_update 250, Frame 16, Pan_end]) \<and>
        list_all valid_cmd
          (cmds_of 400 (mount_bar 400 (init_nav 0)) [Press 2, Pan_begin, Pan_start, Pan_update 250, Frame 16, Pan_end]))"
proof (cases "run 400 [Press 2, Pan_begin, Pan_start, Pan_update 250, Frame 16, Pan_end] (mount_bar 400 (init_nav 0))")
  case None
  then show ?thesis by (simp add: bar_eval)
next
  case (Some s')
  have r: "reach 400 bar_event (mount_bar 400 (init_nav 0))" by (rule reach.mount) simp
  have h: "(16::real) < 400" "list_all bar_event [Press 2, Pan_begin, Pan_start, Pan_update 250, Frame 16, Pan_end]"
    by simp_all
  have c: "cmds_of 400 (mount_bar 400 (init_nav 0)) [Press 2, Pan_begin, Pan_start, Pan_update 250, Frame 16, Pan_end]
          = [Select 2, Keep, Keep, Keep, Keep, Select 3]"
    by (simp add: bar_eval round_half_away_def)
  show ?thesis using Some r h c run_refines_tab_selector [OF r h Some] by simp
qed

end
