(* ===== verification/Snapping.thy ===== *)
theory Snapping
  imports Bar_Invariants
begin

text \<open>
  The specification's drag-end rule (section 4.1) as a reference definition: the
  slot whose laid-out offset \<open>k * TAB_WIDTH\<close> is nearest the capsule's offset, among
  the \<open>N\<close> slots, ties going to the right-hand slot (\<open>Math.round\<close> rounds halves
  up). \<open>nearest_slot\<close> computes it by a search over the slots; \<open>onEnd\<close> computes
  \<open>slot_of\<close> by rounding and clamping, which is the same function.
\<close>

definition nearest_slot :: "px \<Rightarrow> px \<Rightarrow> nat" where
  "nearest_slot sw x = arg_min_list (\<lambda>k. \<bar>x - real k * TAB_WIDTH sw\<bar>) (rev [0..<length TABS])"

lemma dist_scale: "0 < w \<Longrightarrow> \<bar>x - real j * w\<bar> = w * \<bar>x / w - real j\<bar>"
proof -
  assume w: "0 < w"
  have "x - real j * w = w * (x / w - real j)" using w by (simp add: field_simps)
  then show ?thesis using w by (simp add: abs_mult)
qed

lemma slot_of_dist:
  assumes "j < length TABS" and w: "w = TAB_WIDTH sw"
  shows "\<bar>x / w - real (nat (slot_of sw x))\<bar> \<le> \<bar>x / w - real j\<bar> \<and>
         (nat (slot_of sw x) < j \<longrightarrow> \<bar>x / w - real (nat (slot_of sw x))\<bar> < \<bar>x / w - real j\<bar>)"
proof -
  define t r where "t = x / w" and "r = js_round t"
  have r: "real_of_int r - 1 / 2 \<le> t" "t < real_of_int r + 1 / 2"
    using js_round_ge_iff [of r t] js_round_le_iff [of t r] by (simp_all add: r_def)
  have k: "real (nat (slot_of sw x)) = max 0 (min 3 (real_of_int r))"
    by (simp add: slot_of_def r_def t_def w)
  have j: "real j \<le> 3" using assms by simp
  have "int j \<le> r - 1 \<or> int j = r \<or> r + 1 \<le> int j" by linarith
  then have "real_of_int (int j) \<le> real_of_int (r - 1) \<or> real_of_int (int j) = real_of_int r \<or>
             real_of_int (r + 1) \<le> real_of_int (int j)"
    by (simp only: of_int_le_iff of_int_eq_iff)
  then have tri: "real j \<le> real_of_int r - 1 \<or> real j = real_of_int r \<or> real_of_int r + 1 \<le> real j"
    by simp
  have lt: "nat (slot_of sw x) < j \<longleftrightarrow> real (nat (slot_of sw x)) < real j" by (simp only: of_nat_less_iff)
  show ?thesis unfolding t_def [symmetric] lt k using r j tri
    by (auto simp: abs_if max_def min_def)
qed

text \<open>
  C19. The drag end's rounding and clamping computes the nearest slot: for every
  offset, inside the row or not, \<open>slot_of\<close> is the slot at least distance from
  the offset, the right-hand one of two equally near.
\<close>

theorem slot_of_is_nearest_slot:
  assumes "0 < TAB_WIDTH sw"
  shows "slot_of sw x = int (nearest_slot sw x)"
proof -
  let ?w = "TAB_WIDTH sw" and ?k = "nat (slot_of sw x)"
  let ?f = "\<lambda>k. \<bar>x - real k * ?w\<bar>"
  have f: "?f j = ?w * \<bar>x / ?w - real j\<bar>" for j using assms by (rule dist_scale)
  have "arg_min_list ?f (rev [0..<Suc 3]) = ?k"
  proof (rule arg_min_list_rev_upt)
    show "?k \<le> 3" using nat_slot_of_less_4 [of sw x] by linarith
    show "?f ?k \<le> ?f j" if "j \<le> 3" for j
      using that slot_of_dist [of j ?w sw x] assms unfolding f by (simp add: mult_left_mono)
    show "?f ?k < ?f j" if "?k < j" "j \<le> 3" for j
      using that slot_of_dist [of j ?w sw x] assms unfolding f by (simp add: mult_strict_left_mono)
  qed
  moreover have "rev [0..<length TABS] = rev [0..<Suc 3]" by simp
  ultimately have "nearest_slot sw x = ?k" by (simp only: nearest_slot_def)
  then show ?thesis using slot_of_range [of sw x] by simp
qed

theorem slot_of_is_nearest_slot_witness:
  "slot_of 400 144 = int (nearest_slot 400 144) \<and> nearest_slot 400 144 = 2"
proof -
  have w: "0 < TAB_WIDTH 400" by (simp add: TAB_WIDTH_def CONTAINER_PADDING_def)
  have "nearest_slot 400 144 = 2"
    by (simp add: nearest_slot_def TAB_WIDTH_def CONTAINER_PADDING_def TABS_def Let_def)
  then show ?thesis using slot_of_is_nearest_slot [OF w, of 144] by simp
qed

end
