(* ===== verification/Js_Number.thy ===== *)
theory Js_Number
  imports Snapping
begin

text \<open>
  The drag end's slot computation (\<open>onEnd\<close>, lines 68--71) with JavaScript's numbers
  rather than reals. A JavaScript number is a finite value, an infinity or \<open>NaN\<close>
  (\<open>jsnum\<close>; rounding of finite values is not modelled, the values involved are
  exact). The operations follow ECMA-262: division by zero gives an infinity signed as
  the dividend, or \<open>NaN\<close> for \<open>0 / 0\<close>; \<open>Math.round\<close> keeps infinities and \<open>NaN\<close>;
  \<open>Math.min\<close> and \<open>Math.max\<close> return \<open>NaN\<close> when an argument is \<open>NaN\<close>; reading an
  array at an index that is not one of its positions gives \<open>undefined\<close> (\<open>None\<close>).
  Everywhere else the development divides reals, where HOL's \<open>x / 0 = 0\<close>; the lemmas
  here show that this is exact whenever \<open>TAB_WIDTH\<close> is positive, and what the code
  really does when it is not.
\<close>

datatype jsnum = Num real | PosInf | NegInf | NaN

definition js_div :: "real \<Rightarrow> real \<Rightarrow> jsnum" where
  "js_div x y =
     (if y \<noteq> 0 then Num (x / y) else if 0 < x then PosInf else if x < 0 then NegInf else NaN)"

fun Math_round :: "jsnum \<Rightarrow> jsnum" where
  "Math_round (Num x) = Num (real_of_int (js_round x))"
| "Math_round v = v"

fun Math_min :: "jsnum \<Rightarrow> jsnum \<Rightarrow> jsnum" where
  "Math_min NaN b = NaN"
| "Math_min a NaN = NaN"
| "Math_min NegInf b = NegInf"
| "Math_min a NegInf = NegInf"
| "Math_min PosInf b = b"
| "Math_min a PosInf = a"
| "Math_min (Num a) (Num b) = Num (min a b)"

fun Math_max :: "jsnum \<Rightarrow> jsnum \<Rightarrow> jsnum" where
  "Math_max NaN b = NaN"
| "Math_max a NaN = NaN"
| "Math_max PosInf b = PosInf"
| "Math_max a PosInf = PosInf"
| "Math_max NegInf b = b"
| "Math_max a NegInf = a"
| "Math_max (Num a) (Num b) = Num (max a b)"

text \<open>\<open>xs[v]\<close>: defined only at the positions \<open>0, ..., length xs - 1\<close>.\<close>

fun js_nth :: "'a list \<Rightarrow> jsnum \<Rightarrow> 'a option" where
  "js_nth xs (Num r) =
     (if real_of_int \<lfloor>r\<rfloor> = r \<and> 0 \<le> r \<and> r < real (length xs) then Some (xs ! nat \<lfloor>r\<rfloor>) else None)"
| "js_nth xs v = None"

text \<open>
  \<open>clampedIndex\<close> of \<open>onEnd\<close> for the offset \<open>x\<close>, and the route it hands to
  \<open>navigation.navigate\<close> (\<open>None\<close>: \<open>TABS[clampedIndex]\<close> is \<open>undefined\<close>).
\<close>

definition clampedIndex_js :: "px \<Rightarrow> px \<Rightarrow> jsnum" where
  "clampedIndex_js sw x =
     Math_max (Num 0) (Math_min (Num (real (length TABS - 1))) (Math_round (js_div x (TAB_WIDTH sw))))"

definition onEnd_route_js :: "px \<Rightarrow> px \<Rightarrow> string option" where
  "onEnd_route_js sw x = js_nth TABS (clampedIndex_js sw x)"

subsection \<open>Lemmas\<close>

lemma clampedIndex_js_pos:
  assumes "0 < TAB_WIDTH sw"
  shows "clampedIndex_js sw x = Num (real_of_int (slot_of sw x))"
  using assms by (simp add: clampedIndex_js_def js_div_def slot_of_def)

lemma js_nth_slot: "js_nth TABS (Num (real_of_int (slot_of sw x))) = Some (TABS ! nat (slot_of sw x))"
  using slot_of_range [of sw x] by simp

subsection \<open>Properties\<close>

text \<open>
  C23. Whenever \<open>TAB_WIDTH\<close> is positive, \<open>onEnd\<close> computed with JavaScript numbers
  gives the integer slot \<open>slot_of\<close> of the real-number model, and \<open>TABS[clampedIndex]\<close>
  is the tab \<open>CapsuleBar.onEnd\<close> navigates to: division, rounding and clamping never
  meet an infinity or \<open>NaN\<close>, so the real-number model of the drag end is exact.
\<close>

theorem onEnd_js_matches_real_model:
  assumes "16 < sw"
  shows "clampedIndex_js sw x = Num (real_of_int (slot_of sw x)) \<and>
         onEnd_route_js sw x = Some (TABS ! nat (slot_of sw x))"
  using clampedIndex_js_pos [OF TAB_WIDTH_pos [OF assms]] js_nth_slot
  by (simp add: onEnd_route_js_def)

theorem onEnd_js_matches_real_model_witness:
  "clampedIndex_js 400 200 = Num 2 \<and> onEnd_route_js 400 200 = Some ''conversation''"
proof -
  have h: "(16::real) < 400" by simp
  have "slot_of 400 200 = 2" by (simp add: slot_of_def TAB_WIDTH_def CONTAINER_PADDING_def js_round_def)
  then show ?thesis using onEnd_js_matches_real_model [OF h, of 200] by (simp add: TABS_def)
qed

text \<open>
  C24. On a window exactly 16 px wide \<open>TAB_WIDTH\<close> is 0, the drag is clamped to
  offset 0, and \<open>Math.round(0 / 0)\<close> is \<open>NaN\<close>: in every reachable state, a drag end
  computes \<open>clampedIndex = NaN\<close> and hands \<open>TABS[NaN] = undefined\<close> to
  \<open>navigation.navigate\<close>, while the real-number model (where \<open>0 / 0 = 0\<close>) would
  navigate to \<open>index\<close>.
\<close>

theorem drag_end_navigates_undefined_at_width_16:
  assumes "reach 16 ok s"
  shows "clampedIndex_js 16 (cur (translateX s)) = NaN \<and> onEnd_route_js 16 (cur (translateX s)) = None \<and>
         TABS ! nat (slot_of 16 (cur (translateX s))) = ''index''"
proof -
  have "in_row 16 s" using assms by (rule reach_in_row) simp
  then have x: "cur (translateX s) = 0"
    by (simp add: in_row_def anim_between_def TAB_WIDTH_def CONTAINER_PADDING_def)
  show ?thesis
    by (simp add: x clampedIndex_js_def onEnd_route_js_def js_div_def TAB_WIDTH_def CONTAINER_PADDING_def
                  slot_of_def TABS_def)
qed

theorem drag_end_navigates_undefined_at_width_16_witness:
  "case run 16 [Pan_begin, Pan_start, Pan_update 40] (mount_bar 16 (init_nav 2)) of
     None \<Rightarrow> False
   | Some s \<Rightarrow> clampedIndex_js 16 (cur (translateX s)) = NaN \<and> onEnd_route_js 16 (cur (translateX s)) = None"
proof (cases "run 16 [Pan_begin, Pan_start, Pan_update 40] (mount_bar 16 (init_nav 2))")
  case None
  then show ?thesis by (simp add: bar_eval)
next
  case (Some s)
  have "reach 16 any_event s" using reach_run_mount [OF _ _ Some] by (simp add: any_event_def)
  with Some drag_end_navigates_undefined_at_width_16 [of any_event s] show ?thesis by simp
qed

end
