(* ===== verification/Async_Navigation.thy ===== *)
theory Async_Navigation
  imports Bar_Invariants "HOL-Library.While_Combinator"
begin

text \<open>
  The two threads of the tab bar. The pan gesture's callbacks are worklets: they run
  on the UI thread, at once, when the gesture handler reports the event. The call
  \<open>runOnJS(navigation.navigate)(TABS[clampedIndex])\<close> in \<open>onEnd\<close> does not navigate:
  it schedules the call on the JS thread, behind whatever that thread still has to
  do. The tab buttons' \<open>onPress\<close> and any navigation from elsewhere in the app are
  JS-thread work as well. The JS thread runs its tasks one at a time in order of
  arrival (\<open>js_queue\<close>, a FIFO), so the capsule (UI-thread state) and the active
  route (JS-thread state) can disagree while tasks are queued.

  \<^item> \<open>onEnd_ui\<close> is \<open>onEnd\<close> as the UI thread runs it: every write to a shared value,
    and the route handed to \<open>runOnJS\<close>; \<open>CapsuleBar.onEnd\<close> is the same callback with
    the navigation done at once (lemma \<open>onEnd_split\<close>);
  \<^item> \<open>adispatch\<close> delivers an input to its thread (\<open>Input e\<close>) or lets the JS thread
    run its oldest task (\<open>JS_tick\<close>); \<open>drain\<close> runs the JS thread until its queue is
    empty (a \<open>while_option\<close> loop), and \<open>converged\<close> is the state it reaches;
  \<^item> \<open>areach\<close> are the states reachable from a mounted bar by inputs an admission
    predicate allows.
\<close>

datatype js_task = JsNavigate string | JsPress nat

record abar =
  ui :: bar
  js_queue :: "js_task list"

datatype thread_event = Input event | JS_tick

definition runOnJS :: "('a \<Rightarrow> js_task) \<Rightarrow> 'a \<Rightarrow> js_task list \<Rightarrow> js_task list" where
  "runOnJS f x q = q @ [f x]"

definition onEnd_ui :: "px \<Rightarrow> bar \<Rightarrow> bar \<times> string" where
  "onEnd_ui sw s =
     (let index = js_round (cur (translateX s) / TAB_WIDTH sw);
          clampedIndex = max 0 (min (int (length TABS - 1)) index)
      in (s\<lparr>translateX :=
              start_anim (withTiming (real_of_int clampedIndex * TAB_WIDTH sw / 1.1) DEFAULT_DURATION) (translateX s),
            isDragging := False,
            capsuleScaleX := start_anim (withTiming 1 150) (capsuleScaleX s),
            capsuleScaleY := start_anim (withTiming 1 150) (capsuleScaleY s)\<rparr>,
          TABS ! nat clampedIndex))"

fun run_task :: "px \<Rightarrow> js_task \<Rightarrow> bar \<Rightarrow> bar" where
  "run_task sw (JsNavigate r) s = s\<lparr>navstate := navigate r (navstate s)\<rparr>"
| "run_task sw (JsPress i) s = onPress sw i s"

definition js_step :: "px \<Rightarrow> abar \<Rightarrow> abar" where
  "js_step sw a =
     (case js_queue a of
        [] \<Rightarrow> a
      | t # ts \<Rightarrow> a\<lparr>ui := run_task sw t (ui a), js_queue := ts\<rparr>)"

fun adispatch :: "px \<Rightarrow> thread_event \<Rightarrow> abar \<Rightarrow> abar option" where
  "adispatch sw JS_tick a = (if js_queue a = [] then None else Some (js_step sw a))"
| "adispatch sw (Input Pan_end) a =
     (if gesture (ui a) = ACTIVE
      then (case onEnd_ui sw (ui a) of
              (s, r) \<Rightarrow> Some (a\<lparr>ui := s\<lparr>gesture := UNDETERMINED\<rparr>,
                               js_queue := runOnJS JsNavigate r (js_queue a)\<rparr>))
      else None)"
| "adispatch sw (Input (Press i)) a =
     (if i < length TABS then Some (a\<lparr>js_queue := js_queue a @ [JsPress i]\<rparr>) else None)"
| "adispatch sw (Input (Navigate_elsewhere r)) a =
     Some (a\<lparr>js_queue := js_queue a @ [JsNavigate r]\<rparr>)"
| "adispatch sw (Input e) a = map_option (\<lambda>s. a\<lparr>ui := s\<rparr>) (dispatch sw e (ui a))"

definition drain :: "px \<Rightarrow> abar \<Rightarrow> abar option" where
  "drain sw a = while_option (\<lambda>a. js_queue a \<noteq> []) (js_step sw) a"

definition converged :: "px \<Rightarrow> abar \<Rightarrow> bar" where
  "converged sw a = fold (run_task sw) (js_queue a) (ui a)"

definition amount :: "px \<Rightarrow> nav_state \<Rightarrow> abar" where
  "amount sw st = \<lparr>ui = mount_bar sw st, js_queue = []\<rparr>"

fun arun :: "px \<Rightarrow> (abar \<Rightarrow> thread_event \<Rightarrow> bool) \<Rightarrow> thread_event list \<Rightarrow> abar \<Rightarrow> abar option" where
  "arun sw ok [] a = Some a"
| "arun sw ok (e # es) a =
     (if ok a e then (case adispatch sw e a of None \<Rightarrow> None | Some a' \<Rightarrow> arun sw ok es a') else None)"

fun arun_drained :: "px \<Rightarrow> event list \<Rightarrow> abar \<Rightarrow> abar option" where
  "arun_drained sw [] a = Some a"
| "arun_drained sw (e # es) a =
     (case Option.bind (adispatch sw (Input e) a) (drain sw) of None \<Rightarrow> None | Some a' \<Rightarrow> arun_drained sw es a')"

inductive areach :: "px \<Rightarrow> (abar \<Rightarrow> thread_event \<Rightarrow> bool) \<Rightarrow> abar \<Rightarrow> bool" for sw ok where
  mount: "i < length TABS \<Longrightarrow> areach sw ok (amount sw (init_nav i))"
| step: "areach sw ok a \<Longrightarrow> ok a e \<Longrightarrow> adispatch sw e a = Some a' \<Longrightarrow> areach sw ok a'"

fun is_pan :: "event \<Rightarrow> bool" where
  "is_pan Pan_begin = True"
| "is_pan Pan_start = True"
| "is_pan (Pan_update dx) = True"
| "is_pan Pan_end = True"
| "is_pan Pan_fail = True"
| "is_pan e = False"

primrec has_press :: "js_task list \<Rightarrow> bool" where
  "has_press [] = False"
| "has_press (t # ts) = (case t of JsPress i \<Rightarrow> True | JsNavigate r \<Rightarrow> has_press ts)"

definition any_input :: "abar \<Rightarrow> thread_event \<Rightarrow> bool" where
  "any_input a e = True"

fun calm :: "abar \<Rightarrow> thread_event \<Rightarrow> bool" where
  "calm a (Input e) = (bar_event e \<and> (is_pan e \<longrightarrow> \<not> has_press (js_queue a)))"
| "calm a JS_tick = True"

text \<open>
  A task the JS thread can run: a press names a tab (the bar renders a button for
  each tab of \<open>TABS\<close> and no other).
\<close>

definition valid_task :: "js_task \<Rightarrow> bool" where
  "valid_task t = (case t of JsPress i \<Rightarrow> i < length TABS | JsNavigate r \<Rightarrow> True)"

text \<open>Admit the inputs that satisfy \<open>Q\<close>, and every turn of the JS thread.\<close>

fun ui_ok :: "(event \<Rightarrow> bool) \<Rightarrow> abar \<Rightarrow> thread_event \<Rightarrow> bool" where
  "ui_ok Q a (Input e) = Q e"
| "ui_ok Q a JS_tick = True"

definition same_sync :: "bar \<Rightarrow> bar \<Rightarrow> bool" where
  "same_sync s t \<longleftrightarrow>
     navstate s = navstate t \<and> gesture s = gesture t \<and>
     final_value (translateX s) = final_value (translateX t)"

subsection \<open>Lemmas on the JS thread's queue\<close>

lemma onEnd_split:
  "onEnd sw s = (case onEnd_ui sw s of (s', r) \<Rightarrow> s'\<lparr>navstate := navigate r (navstate s')\<rparr>)"
  by (simp add: onEnd_def onEnd_ui_def Let_def)

lemma drain_fold:
  "drain sw a = Some (a\<lparr>ui := converged sw a, js_queue := []\<rparr>)"
proof (induction "js_queue a" arbitrary: a)
  case Nil
  then show ?case
    by (simp add: drain_def converged_def while_option_unfold [of _ _ a])
next
  case (Cons t ts)
  let ?a' = "a\<lparr>ui := run_task sw t (ui a), js_queue := ts\<rparr>"
  have "drain sw a = drain sw ?a'"
    using Cons.hyps(2) [symmetric]
    by (simp add: drain_def js_step_def while_option_unfold [of _ _ a])
  also have "\<dots> = Some (?a'\<lparr>ui := converged sw ?a', js_queue := []\<rparr>)"
    by (rule Cons.hyps(1)) simp
  also have "converged sw ?a' = converged sw a"
    using Cons.hyps(2) [symmetric] by (simp add: converged_def)
  finally show ?case by simp
qed

lemma same_sync_refl [simp]: "same_sync s s"
  by (simp add: same_sync_def)

lemma same_sync_synced: "same_sync s t \<Longrightarrow> synced sw s \<longleftrightarrow> synced sw t"
  by (simp add: same_sync_def synced_def)

lemma run_task_same_sync: "same_sync s t \<Longrightarrow> same_sync (run_task sw x s) (run_task sw x t)"
  by (cases x) (simp_all add: same_sync_def onPress_def)

lemma fold_same_sync:
  "same_sync s t \<Longrightarrow> same_sync (fold (run_task sw) q s) (fold (run_task sw) q t)"
  by (induction q arbitrary: s t) (simp_all add: run_task_same_sync)

lemma fold_no_press:
  "\<not> has_press q \<Longrightarrow>
   fold (run_task sw) q s = s\<lparr>navstate := fold navigate (map (\<lambda>t. case t of JsNavigate r \<Rightarrow> r) q) (navstate s)\<rparr>"
proof (induction q arbitrary: s)
  case Nil
  then show ?case by simp
next
  case (Cons t q)
  then show ?case by (cases t) simp_all
qed

lemma gesture_fold [simp]: "gesture (fold (run_task sw) q s) = gesture s"
proof (induction q arbitrary: s)
  case (Cons t q)
  then show ?case by (cases t) (simp_all add: onPress_def)
qed simp

lemma adispatch_drain:
  "Option.bind (adispatch sw (Input e) \<lparr>ui = s, js_queue = []\<rparr>) (drain sw) =
   map_option (\<lambda>s'. \<lparr>ui = s', js_queue = []\<rparr>) (dispatch sw e s)"
proof (cases e)
  case Pan_end
  then show ?thesis
    by (simp add: drain_fold converged_def runOnJS_def onEnd_split split: prod.split)
next
  case (Press i)
  then show ?thesis by (simp add: drain_fold converged_def)
next
  case (Navigate_elsewhere r)
  then show ?thesis by (simp add: drain_fold converged_def)
qed (simp_all add: drain_fold converged_def option.map_comp comp_def
                split: option.split)

lemma has_press_append [simp]: "has_press (q @ q') \<longleftrightarrow> has_press q \<or> has_press q'"
  by (induction q) (auto split: js_task.split)

lemma converged_js_step [simp]: "converged sw (js_step sw a) = converged sw a"
  by (simp add: js_step_def converged_def split: list.split)

lemma dispatch_converged_pan:
  assumes "is_pan e" and "\<not> has_press (js_queue a)" and "adispatch sw (Input e) a = Some a'"
  shows "dispatch sw e (converged sw a) = Some (converged sw a')"
  using assms
  by (cases e)
     (auto simp: converged_def fold_no_press runOnJS_def onEnd_split onEnd_ui_def Let_def
                 bar_handler_simps split: if_splits)

lemma calm_step:
  assumes sw: "16 < sw" and inv: "synced sw (converged sw a)" and ok: "calm a e"
    and step: "adispatch sw e a = Some a'"
  shows "synced sw (converged sw a')"
proof (cases e)
  case JS_tick
  with inv step show ?thesis by (auto split: if_splits)
next
  case (Input e')
  show ?thesis
  proof (cases "is_pan e'")
    case True
    with Input ok step have "dispatch sw e' (converged sw a) = Some (converged sw a')"
      by (intro dispatch_converged_pan) simp_all
    with sw inv Input ok show ?thesis by (auto intro: synced_step)
  next
    case False
    show ?thesis
    proof (cases e')
      case (Press i)
      with Input step have "dispatch sw e' (converged sw a) = Some (converged sw a')"
        by (auto simp: converged_def split: if_splits)
      with sw inv Input ok show ?thesis by (auto intro: synced_step)
    next
      case (Frame dt)
      let ?s = "(ui a)\<lparr>translateX := anim_frame dt (translateX (ui a)),
                       capsuleScaleX := anim_frame dt (capsuleScaleX (ui a)),
                       capsuleScaleY := anim_frame dt (capsuleScaleY (ui a))\<rparr>"
      have "same_sync ?s (ui a)" by (simp add: same_sync_def)
      then have "same_sync (converged sw a') (converged sw a)"
        using Input Frame step by (auto simp: converged_def intro: fold_same_sync split: if_splits)
      with inv show ?thesis by (simp add: same_sync_synced)
    qed (use Input ok False in simp_all)
  qed
qed

lemma arun_areach: "areach sw ok a \<Longrightarrow> arun sw ok es a = Some a' \<Longrightarrow> areach sw ok a'"
proof (induction es arbitrary: a)
  case (Cons e es)
  then show ?case by (auto intro: areach.step split: if_splits option.splits)
qed simp

lemma areach_synced: "areach sw calm a \<Longrightarrow> 16 < sw \<Longrightarrow> synced sw (converged sw a)"
proof (induction rule: areach.induct)
  case (mount i)
  then show ?case by (simp add: amount_def converged_def synced_mount)
next
  case (step a e a')
  then show ?case by (blast intro: calm_step)
qed

lemmas async_eval = bar_eval onEnd_ui_def js_step_def runOnJS_def amount_def

text \<open>
  Each step of the two-thread model changes the UI-thread state as one step of the
  synchronous model does (the input itself, or the press the JS thread runs), except
  perhaps for the active route, or changes only the route; and queued presses name
  tabs.
\<close>

lemma adispatch_ui:
  assumes "adispatch sw e a = Some a'" and "list_all valid_task (js_queue a)"
  shows "list_all valid_task (js_queue a') \<and>
         ((\<exists>n. ui a' = (ui a)\<lparr>navstate := n\<rparr>) \<or>
          (\<exists>e' s' n. (e = Input e' \<or> e = JS_tick \<and> (\<exists>i. e' = Press i)) \<and>
                     dispatch sw e' (ui a) = Some s' \<and> ui a' = s'\<lparr>navstate := n\<rparr>))"
proof (cases e)
  case JS_tick
  with assms obtain t ts where q: "js_queue a = t # ts" and a': "a' = js_step sw a"
    by (auto simp: neq_Nil_conv split: if_splits)
  show ?thesis
  proof (cases t)
    case (JsNavigate r)
    with assms(2) q a' show ?thesis by (auto simp: js_step_def)
  next
    case (JsPress i)
    with assms(2) q have "i < length TABS" by (simp add: valid_task_def)
    then have "dispatch sw (Press i) (ui a) = Some (onPress sw i (ui a))" by simp
    moreover have "ui a' = (onPress sw i (ui a))\<lparr>navstate := navstate (onPress sw i (ui a))\<rparr>"
      using a' q JsPress by (simp add: js_step_def)
    moreover have "list_all valid_task (js_queue a')" using a' q assms(2) by (simp add: js_step_def)
    ultimately show ?thesis using JS_tick by blast
  qed
next
  case (Input e')
  consider (End) "e' = Pan_end" | (Press) i where "e' = Press i"
    | (Nav) r where "e' = Navigate_elsewhere r"
    | (Ui) "adispatch sw (Input e') a = map_option (\<lambda>s. a\<lparr>ui := s\<rparr>) (dispatch sw e' (ui a))"
    by (cases e') auto
  then show ?thesis
  proof cases
    case End
    obtain s1 r where o: "onEnd_ui sw (ui a) = (s1, r)" by fastforce
    from Input End assms o have g: "gesture (ui a) = ACTIVE"
      and u: "ui a' = s1\<lparr>gesture := UNDETERMINED\<rparr>" and q: "list_all valid_task (js_queue a')"
      by (auto simp: runOnJS_def valid_task_def split: if_splits)
    have "dispatch sw Pan_end (ui a) = Some ((onEnd sw (ui a))\<lparr>gesture := UNDETERMINED\<rparr>)" using g by simp
    moreover have "ui a' = ((onEnd sw (ui a))\<lparr>gesture := UNDETERMINED\<rparr>)\<lparr>navstate := navstate s1\<rparr>"
      using u o by (simp add: onEnd_split)
    ultimately show ?thesis using Input End q by blast
  next
    case Press
    with Input assms show ?thesis
      by (auto simp: valid_task_def split: if_splits intro: exI [of _ "navstate (ui a)"])
  next
    case Nav
    with Input assms show ?thesis
      by (auto simp: valid_task_def intro: exI [of _ "navstate (ui a)"])
  next
    case Ui
    with Input assms(1) obtain s' where d: "dispatch sw e' (ui a) = Some s'" and a': "a' = a\<lparr>ui := s'\<rparr>"
      by auto
    have "ui a' = s'\<lparr>navstate := navstate s'\<rparr>" using a' by simp
    moreover have "list_all valid_task (js_queue a')" using a' assms(2) by simp
    ultimately show ?thesis using d Input by blast
  qed
qed

text \<open>
  Hence every invariant of the synchronous model's UI state that ignores the active
  route holds in the two-thread model too, for the inputs it admits (it must admit
  presses, which the JS thread runs whatever was admitted).
\<close>

lemma areach_lift:
  assumes "areach sw (ui_ok Q) a"
    and mount: "\<And>i. i < length TABS \<Longrightarrow> P (mount_bar sw (init_nav i))"
    and pres: "\<And>s e s'. P s \<Longrightarrow> Q e \<Longrightarrow> dispatch sw e s = Some s' \<Longrightarrow> P s'"
    and nav: "\<And>s n. P (s\<lparr>navstate := n\<rparr>) \<longleftrightarrow> P s"
    and press: "\<And>i. Q (Press i)"
  shows "P (ui a) \<and> list_all valid_task (js_queue a)"
  using assms(1)
proof (induction rule: areach.induct)
  case (mount i)
  then show ?case using assms(2) by (simp add: amount_def)
next
  case (step a e a')
  then have ih: "P (ui a)" and q: "list_all valid_task (js_queue a)" by simp_all
  note d = adispatch_ui [OF step.hyps(3) q]
  have "P (ui a')"
  proof (cases "\<exists>n. ui a' = (ui a)\<lparr>navstate := n\<rparr>")
    case True
    with ih nav show ?thesis by auto
  next
    case False
    with d obtain e' s' n where ev: "e = Input e' \<or> e = JS_tick \<and> (\<exists>i. e' = Press i)"
      and s': "dispatch sw e' (ui a) = Some s'" and u: "ui a' = s'\<lparr>navstate := n\<rparr>"
      by blast
    have "Q e'" using ev step.hyps(2) press by auto
    with ih s' have "P s'" by (blast intro: pres)
    with u nav show ?thesis by simp
  qed
  with d show ?case by simp
qed

lemma any_input_ui_ok: "any_input = ui_ok any_event"
  by (rule ext)+ (case_tac xa; simp add: any_input_def any_event_def)

lemma areach_in_row:
  assumes "areach sw any_input a" and "16 \<le> sw"
  shows "in_row sw (ui a)"
proof -
  have "areach sw (ui_ok any_event) a" using assms(1) by (simp add: any_input_ui_ok)
  then show ?thesis
  proof (rule areach_lift [THEN conjunct1])
    show "in_row sw (mount_bar sw (init_nav i))" if "i < length TABS" for i
      using assms(2) that by (rule in_row_mount)
    show "in_row sw s'" if "in_row sw s" "any_event e" "dispatch sw e s = Some s'" for s e s'
      using assms(2) that(1,3) by (rule in_row_step)
    show "in_row sw (s\<lparr>navstate := n\<rparr>) \<longleftrightarrow> in_row sw s" for s n by (simp add: in_row_def)
    show "any_event (Press i)" for i by (simp add: any_event_def)
  qed
qed

lemma areach_scale_rest:
  assumes "areach sw (ui_ok no_fail) a"
  shows "scale_rest (ui a)"
  using assms
proof (rule areach_lift [THEN conjunct1])
  show "scale_rest (mount_bar sw (init_nav i))" for i by (rule scale_rest_mount)
  show "scale_rest s'" if "scale_rest s" "no_fail e" "dispatch sw e s = Some s'" for s e s'
    using that by (rule scale_rest_step)
  show "scale_rest (s\<lparr>navstate := n\<rparr>) \<longleftrightarrow> scale_rest s" for s n by (simp add: scale_rest_def)
  show "no_fail (Press i)" for i by simp
qed

subsection \<open>Properties of the two threads\<close>

text \<open>
  C18. If no navigation comes from elsewhere and no pan-gesture event arrives while a
  tab press is still waiting on the JS thread (\<open>calm\<close>), then from every reachable
  state, with tasks queued or not, the JS thread finishes its queue and the bar it leaves is in sync: the routes are
  \<open>TABS\<close>, the active index is a tab, and outside an active drag the capsule comes
  to rest on the active tab. Without the condition a tap and a drag race: the tap's
  task, run after the drag ended, moves the capsule away from the drag's route.
\<close>

theorem js_thread_catches_up:
  "areach sw calm a \<Longrightarrow> 16 < sw \<Longrightarrow> \<exists>a'. drain sw a = Some a' \<and> js_queue a' = [] \<and> synced sw (ui a')"
  using areach_synced [of sw a] by (simp add: drain_fold)

theorem js_thread_catches_up_witness:
  "case arun 400 calm [Input Pan_begin, Input Pan_start, Input (Pan_update 200), Input Pan_end,
                      Input (Press 3)] (amount 400 (init_nav 1)) of
     None \<Rightarrow> False
   | Some a \<Rightarrow> js_queue a \<noteq> [] \<and> (\<exists>a'. drain 400 a = Some a' \<and> js_queue a' = [] \<and> synced 400 (ui a'))"
proof (cases "arun 400 calm [Input Pan_begin, Input Pan_start, Input (Pan_update 200), Input Pan_end,
                      Input (Press 3)] (amount 400 (init_nav 1))")
  case None
  then show ?thesis by (simp add: async_eval)
next
  case (Some a)
  have "areach 400 calm a" by (rule arun_areach [OF areach.mount Some]) simp
  moreover have "js_queue a \<noteq> []" using Some by (auto simp: async_eval)
  ultimately show ?thesis using Some js_thread_catches_up [of 400 a] by simp
qed

text \<open>
  C20. The capsule stays in its row under the two threads too: whatever inputs
  arrive and however the JS thread's turns interleave with them, its offset and
  every target it is animating to lie in \<open>[0, (N - 1) * TAB_WIDTH]\<close>, on every
  window wider than the 16 px of padding.
\<close>

theorem translateX_in_row_two_threads:
  assumes "areach sw any_input a" and "16 < sw"
  shows "anim_between 0 (real (length TABS - 1) * TAB_WIDTH sw) (translateX (ui a))"
  using areach_in_row [OF assms(1) less_imp_le [OF assms(2)]] by (simp add: in_row_def)

theorem translateX_in_row_two_threads_witness:
  "case arun 400 any_input [Input (Press 3), Input Pan_begin, Input Pan_start, Input (Pan_update 900),
                           JS_tick, Input Pan_end, JS_tick] (amount 400 (init_nav 0)) of
     None \<Rightarrow> False
   | Some a \<Rightarrow> anim_between 0 (real (length TABS - 1) * TAB_WIDTH 400) (translateX (ui a))"
proof (cases "arun 400 any_input [Input (Press 3), Input Pan_begin, Input Pan_start, Input (Pan_update 900),
                           JS_tick, Input Pan_end, JS_tick] (amount 400 (init_nav 0))")
  case None
  then show ?thesis by (simp add: async_eval any_input_def)
next
  case (Some a)
  have "areach 400 any_input a" by (rule arun_areach [OF areach.mount Some]) simp
  then show ?thesis using Some translateX_in_row_two_threads [of 400 a] by simp
qed

text \<open>
  C21. The scale invariant C7 holds under the two threads as well: in runs where no
  pan fails before activating, whenever no gesture is in progress the capsule's
  scale is returning to 1 and \<open>isDragging\<close> is false, even when a tap's pulse is
  run by the JS thread in the middle of a drag.
\<close>

theorem scale_restored_two_threads:
  assumes "areach sw (ui_ok no_fail) a" and "gesture (ui a) = UNDETERMINED"
  shows "final_value (capsuleScaleX (ui a)) = 1 \<and> final_value (capsuleScaleY (ui a)) = 1 \<and>
         \<not> isDragging (ui a)"
  using areach_scale_rest [OF assms(1)] assms(2) by (simp add: scale_rest_def)

theorem scale_restored_two_threads_witness:
  "case arun 400 (ui_ok no_fail) [Input (Press 2), Input Pan_begin, Input Pan_start, JS_tick,
                                 Input (Pan_update 30), Input Pan_end, JS_tick] (amount 400 (init_nav 0)) of
     None \<Rightarrow> False
   | Some a \<Rightarrow> gesture (ui a) = UNDETERMINED \<and> final_value (capsuleScaleX (ui a)) = 1 \<and>
               final_value (capsuleScaleY (ui a)) = 1 \<and> \<not> isDragging (ui a)"
proof (cases "arun 400 (ui_ok no_fail) [Input (Press 2), Input Pan_begin, Input Pan_start, JS_tick,
                                 Input (Pan_update 30), Input Pan_end, JS_tick] (amount 400 (init_nav 0))")
  case None
  then show ?thesis by (simp add: async_eval)
next
  case (Some a)
  have r: "areach 400 (ui_ok no_fail) a" by (rule arun_areach [OF areach.mount Some]) simp
  have "gesture (ui a) = UNDETERMINED" using Some by (auto simp: async_eval)
  then show ?thesis using Some scale_restored_two_threads [OF r] by simp
qed

end
