(* ===== verification/Home.thy ===== *)
theory Home
  imports Tabs
begin

text \<open>
  The home screen, \<open>src/app/(tabs)/index.tsx\<close> (\<open>HomeScreen\<close>): a themed view
  padded below the safe-area top inset, holding a scroll view whose bottom padding is
  the tab bar's overflow (\<open>useBottomTabOverflow()\<close>, from a module outside the
  sources, taken as an input) and a header with the title. It has no state; the model
  is the view tree's properties as a function of the two inputs.
\<close>

record home_style =
  header_paddingLeft :: px
  header_paddingRight :: px
  container_flex :: nat
  content_flex :: nat
  content_gap :: px

definition home_styles :: home_style where
  "home_styles =
     \<lparr>header_paddingLeft = 32, header_paddingRight = 20, container_flex = 1, content_flex = 1,
      content_gap = 16\<rparr>"

record home_view =
  hv_paddingTop :: px
  hv_scrollEventThrottle :: nat
  hv_scrollIndicatorBottom :: px
  hv_contentPaddingBottom :: px
  hv_title :: string
  hv_style :: home_style

definition HomeScreen :: "px \<Rightarrow> px \<Rightarrow> home_view" where
  "HomeScreen insets_top overflow =
     \<lparr>hv_paddingTop = insets_top + 17, hv_scrollEventThrottle = 16,
      hv_scrollIndicatorBottom = overflow, hv_contentPaddingBottom = overflow,
      hv_title = ''Translate'', hv_style = home_styles\<rparr>"

end
