(* ===== verification/Spec2Isabelle.thy ===== *)
theory Spec2Isabelle
  imports Selector_Refinement Js_Number Async_Navigation Home
begin

text \<open>
  \<^bold>\<open>A verification library for the front end of the translate app.\<close>

  \<^bold>\<open>The program.\<close> The repository is the navigation shell of a React Native (Expo)
  app: \<open>src/app/(tabs)/_layout.tsx\<close> (\<open>TabLayout\<close>) registers four screens
  (\<open>index\<close>, \<open>camera\<close>, \<open>conversation\<close>, \<open>favorites\<close>) with expo-router's
  \<open>Tabs\<close> and replaces its tab bar by \<open>FloatingCapsuleTabBar\<close>
  (\<open>src/components/FloatigCapsuleBar.tsx\<close>); \<open>src/constants/Colors.ts\<close> is the
  light/dark theme table both read; \<open>src/app/(tabs)/index.tsx\<close> (\<open>HomeScreen\<close>) is
  a static scroll view. The navigation container owns the active route index and
  passes it to the bar as \<open>state\<close>; the bar calls \<open>navigation.navigate\<close> from a tap
  handler or, through \<open>runOnJS\<close>, from the end of a pan gesture on the capsule; the
  pan's callbacks run on the UI thread and animate shared values
  (react-native-reanimated) that position and scale the capsule.

  \<^bold>\<open>Theories and what they model.\<close>
  \<^item> \<open>Prelude\<close>: \<open>Math.round\<close> (\<open>js_round\<close>), the specification's rounding
    (\<open>round_half_away\<close>), list positions (\<open>pos_of\<close>), and the shared lemmas on
    rounding and on the clamp idiom \<open>min (max x lo) hi\<close>. JavaScript numbers are reals.
  \<^item> \<open>Colors\<close>: \<open>Colors.ts\<close> as the record \<open>palette\<close> and the function
    \<open>Colors :: scheme \<Rightarrow> palette\<close>; \<open>scheme_or_light\<close> is the fallback
    \<open>useColorScheme() || "light"\<close> (and \<open>?? 'light'\<close> in the layout).
  \<^item> \<open>Tabs\<close>: the bar's \<open>TABS\<close> and \<open>tabMeta\<close>, the icon keys, the layout's
    \<open>TabLayout_screens\<close> and \<open>TabLayout_options\<close>, and the navigation container
    (\<open>nav_state\<close>, \<open>navigate\<close>; a library, modelled from the specification);
    the key type \<open>(typeof TABS)[number]\<close> of \<open>tabMeta\<close> is the datatype \<open>tab\<close>
    with an \<open>enum\<close> instance, so that statements over all tabs are decided by
    evaluation.
  \<^item> \<open>Animation\<close>: reanimated shared values (\<open>anim\<close>: current value, queue of
    \<open>(target, duration)\<close> segments, the running segment's start value and clock;
    \<open>set_value\<close>, \<open>start_anim\<close>, \<open>withTiming\<close> with its default duration,
    \<open>withSequence\<close>, and \<open>anim_frame dt\<close>, a frame \<open>dt\<close> ms after the last, which
    interpolates with the default easing \<open>Easing.inOut(Easing.quad)\<close>), modelled from
    the library's implementation; \<open>frames_left dt\<close> counts the frames still needed.
  \<^item> \<open>CapsuleBar\<close>: the component. Its state is the record \<open>bar\<close> (the five
    \<open>useSharedValue\<close>s, the container's state, the pan handler's state); its
    operations are \<open>mount_bar\<close>, \<open>onBegin\<close>, \<open>onStart\<close>, \<open>onUpdate\<close>,
    \<open>onEnd\<close>, \<open>onPress\<close> (the inline \<open>onPress\<close> of tab \<open>index\<close>) and
    \<open>render_bar\<close>/\<open>render_tab\<close>; \<open>styles_container\<close> and \<open>styles_capsule\<close>
    (with \<open>styles_tabContent\<close> and \<open>styles_tabLabel\<close>, which every rendered tab
    carries, the label's with its tint) are the style sheet, and \<open>padding_box_width\<close>, \<open>slot_width\<close>, \<open>slot_left\<close>
    the flexbox layout of the row. \<open>dispatch\<close> is one event of the environment
    (a pan callback in the order react-native-gesture-handler calls them, a tap, an
    animation frame, a navigation done elsewhere); \<open>run\<close> runs a list of events and
    \<open>reach sw ok\<close> is the set of states reachable from a mount by events \<open>ok\<close>
    admits.
  \<^item> \<open>Bar_Invariants\<close>: the invariants \<open>in_row\<close>, \<open>synced\<close>, \<open>scale_rest\<close>,
    \<open>scale_bounded\<close>, \<open>short_anims\<close> over \<open>reach\<close>, each by rule induction from one preservation lemma.
  \<^item> \<open>Selector_Refinement\<close>: the specification's contract of the bar as an
    abstract selector of the active tab (\<open>tab_cmd\<close>, \<open>tab_select\<close>) and the
    map \<open>cmd_of\<close> from concrete events to abstract commands.
  \<^item> \<open>Snapping\<close>: the specification's drag-end rule as a reference definition,
    \<open>nearest_slot\<close> (a search with \<open>arg_min_list\<close> over the slots), and its
    equivalence with the code's rounding and clamping (\<open>slot_of\<close>).
  \<^item> \<open>Js_Number\<close>: the drag end's \<open>clampedIndex\<close> and \<open>TABS[clampedIndex]\<close> with
    JavaScript numbers (\<open>jsnum\<close>: finite values, infinities, \<open>NaN\<close>; \<open>js_div\<close>,
    \<open>Math_round\<close>, \<open>Math_min\<close>, \<open>Math_max\<close>, and \<open>js_nth\<close>, which is \<open>undefined\<close>
    off an array's positions), against which the real-number model is checked.
  \<^item> \<open>Async_Navigation\<close>: the two threads. The pan callbacks run on the UI
    thread (\<open>onEnd_ui\<close> is \<open>onEnd\<close> with its \<open>runOnJS\<close> call scheduled, not
    made); \<open>onPress\<close>, the scheduled \<open>navigation.navigate\<close> and navigations from
    elsewhere are tasks of the JS thread's FIFO queue (\<open>js_task\<close>, \<open>run_task\<close>).
    \<open>adispatch\<close> delivers an input to its thread or gives the JS thread a turn;
    \<open>drain\<close> (a \<open>while_option\<close>) runs the JS thread until it is idle, and
    \<open>areach sw ok\<close> are the reachable two-thread states. \<open>CapsuleBar.dispatch\<close>
    is this model with the queue emptied after each input, and
    \<open>areach_lift\<close> carries every UI-state invariant of \<open>CapsuleBar\<close> that
    ignores the active route over to every interleaving of the two threads.
  \<^item> \<open>Home\<close>: \<open>HomeScreen\<close> as a function from the safe-area inset and the tab
    bar overflow to its view properties (\<open>home_view\<close>, \<open>home_styles\<close>).
  \<^item> This theory: \<open>TabLayout\<close> as a whole (the \<open>Tabs\<close> element with the bar as its
    \<open>tabBar\<close>), \<open>navigator_init\<close> (the container started on a registered screen),
    and the render of the bar over the theme and the tables.

  \<^bold>\<open>What is proved\<close> (claims C1--C16 on the bar as the synchronous model reads
  it, C17--C25 on the refinement, the two threads, the snapping rule, the timing,
  JavaScript's numbers and the scale, each group in order of importance): the
  capsule's offset never leaves \<open>[0, 3 TAB_WIDTH]\<close> on a window wider than the
  padding (C1); a drag end selects the nearest slot with the specification's
  rounding and restores the capsule (C2); outside a drag the capsule comes to rest on
  the active tab (C3), and a drag with no movement keeps it (C4); a tap navigates and
  pulses (C5); updates clamp (C6) and are absolute (C13); the scale returns to 1
  unless a gesture fails (C7). Findings proved as theorems: a failed pan leaves the
  capsule enlarged with \<open>isDragging\<close> set (C8); navigation from elsewhere
  desynchronises capsule and active tab (C9); the divisor 1.1 keeps snapping right
  only up to six tabs (C10), misplaces the capsule relative to the laid-out tabs on
  every width but 495.6 (C11), and differs from the mount offset (C14); a drag past
  the row's end leaves the capsule, clamped by \<open>onUpdate\<close>, past the padding box on
  every width under 504.4 (C12). 18 frames at 60 Hz (300 ms) finish every animation
  the bar starts (C15); rendering never fails and tints exactly the active tab
  (C16). Over whole runs, every event changes the active tab exactly as the abstract
  selector's command for it (C17). If no navigation comes from elsewhere and no pan
  event arrives while a tap waits on the JS thread, the JS thread always empties its
  queue and leaves the bar in sync (C18). The drag end's rounding and clamping is
  exactly the nearest-slot search of the specification, ties going right, for every
  offset (C19). The row bound (C1) and the scale reset (C7) hold under every
  interleaving of the two threads as well (C20, C21). A tap's pulse and slide last
  exactly 18 frames at 60 Hz, \<open>onBegin\<close>'s pulse 9 (C22). With JavaScript's
  numbers the drag end computes exactly the real model's slot on every window wider
  than 16 px (C23); on a 16 px window it computes \<open>NaN\<close> and navigates to
  \<open>undefined\<close> (C24). In every reachable state the capsule's scales, and every
  target they are animating to, stay within the pulses' peaks 1.21 and 1.35 (C25).

  The divergences between constant tables (the first tab's label "Translate"
  against the layout's title "Translation", the layout's active tint ignored by the
  bar in dark mode) and the race of a tap against a drag are recorded as findings
  of the manifest; they are read off the tables or off one trace, not theorems.

  \<^bold>\<open>Bounds and assumptions.\<close> The theorems on the bar assume a window wider than
  the 16 px of padding (\<open>16 < sw\<close>), so that \<open>TAB_WIDTH\<close> is positive, wherever
  the drag end's division plays a part; the clamp C6 needs only \<open>16 \<le> sw\<close>, and
  the scale and timing claims and C12 hold for every width. At exactly 16 px the model's division \<open>x / 0 = 0\<close> is not JavaScript's:
  \<open>Js_Number\<close> shows that reals are exact for the drag end on every wider window
  (C23) and what JavaScript computes at the boundary (C24). Frames come at nonnegative intervals (\<open>Frame dt\<close> with
  \<open>dt < 0\<close> is refused); the timing claims take 60 frames a second. No fuel is
  needed: every operation is a total function and an animation finishes after
  \<open>frames_left\<close> frames, each frame using up one (at most 18 at 60 Hz for the bar,
  C15); the JS thread's loop ends because each turn removes
  one task (\<open>drain_fold\<close>, by induction on the queue), so \<open>while_option\<close> needs no fuel either. The relative speed of
  the two threads is left free: any interleaving of inputs and JS turns is a run.

  \<^bold>\<open>Not modelled.\<close> The home screen's rendering beyond its view properties, the
  icon components, \<open>HapticTab\<close> and \<open>TabBarBackground\<close> (not in the sources, and unused by the custom
  bar), the frame at which reanimated starts an animation (taken as the frame after
  the write, with the clock at 0), IEEE rounding of the offsets, and the rendering
  engine itself.

  Shared-value writes made on the JS thread (in \<open>onPress\<close>) are taken to reach
  the UI thread when the task runs; reanimated's own transfer of them is not
  modelled.

  \<^bold>\<open>Coverage.\<close> The lines of the four sources the map leaves out are imports,
  blank lines and closing braces: no code of the repository is left unmodelled.
  The abstract selector of \<open>Selector_Refinement\<close> is not extended with the
  capsule's slot: C3 and C17 together already say that, outside a drag, the capsule
  rests on the tab the selector has selected.
\<close>

text \<open>The view of tab \<open>it\<close> that \<open>render_tab\<close> produces for a tab of \<open>TABS\<close>.\<close>

definition tab_of :: "palette \<Rightarrow> nat \<Rightarrow> nat \<times> string \<Rightarrow> tab_view" where
  "tab_of pal active it =
     \<lparr>tv_key = snd it, tv_label = label (the (tabMeta (snd it))), tv_icon = icon (the (tabMeta (snd it))),
      tv_tint = (if active = fst it then nav_icons_tinted pal else nav_icons pal),
      tv_content_style = styles_tabContent,
      tv_label_style =
        styles_tabLabel\<lparr>tl_color := Some (if active = fst it then nav_icons_tinted pal else nav_icons pal)\<rparr>\<rparr>"

text \<open>
  \<open>TabLayout\<close> as a whole: the \<open>Tabs\<close> element it returns, with its screen options,
  its screen registrations and its \<open>tabBar\<close> render function, which renders
  \<open>FloatingCapsuleTabBar\<close> with the navigator's props; both components read the
  same device colour scheme. The navigator (expo-router's \<open>Tabs\<close>, a library)
  builds its route list from the registrations, in order, with the initial route
  active (\<open>navigator_init\<close>).
\<close>

record tabs_element =
  te_screenOptions :: screen_options
  te_screens :: "screen list"
  te_tabBar :: "bar \<Rightarrow> bar_view option"

definition TabLayout :: "scheme option \<Rightarrow> tabs_element" where
  "TabLayout colorScheme =
     \<lparr>te_screenOptions = TabLayout_options colorScheme, te_screens = TabLayout_screens,
      te_tabBar = render_bar colorScheme\<rparr>"

definition navigator_init :: "tabs_element \<Rightarrow> nat \<Rightarrow> nav_state" where
  "navigator_init el i = \<lparr>nav_routes = map scr_name (te_screens el), nav_index = i\<rparr>"

subsection \<open>Rendering\<close>

lemma those_map_Some: "(\<And>x. x \<in> set xs \<Longrightarrow> f x = Some (g x)) \<Longrightarrow> those (map f xs) = Some (map g xs)"
  by (induction xs) auto

lemma render_tab_TABS:
  "it \<in> set (enumerate 0 TABS) \<Longrightarrow> render_tab pal active it = Some (tab_of pal active it)"
  by (auto simp: render_tab_def tab_of_def TABS_def tabMeta_def icon_keys_def enumerate_eq_zip Let_def)

lemma render_bar_eq:
  "render_bar cs s = Some
     \<lparr>bv_background = nav (Colors (scheme_or_light cs)), bv_border = nav_border (Colors (scheme_or_light cs)),
      bv_capsule_color = nav_capsule (Colors (scheme_or_light cs)),
      bv_capsule_transform = (cur (translateX s), cur (capsuleScaleX s), cur (capsuleScaleY s)),
      bv_tabs = map (tab_of (Colors (scheme_or_light cs)) (nav_index (navstate s))) (enumerate 0 TABS)\<rparr>"
  unfolding render_bar_def Let_def
  by (subst those_map_Some [OF render_tab_TABS]) simp_all

lemma bar_tints_differ: "nav_icons (Colors s) \<noteq> nav_icons_tinted (Colors s)"
  by (cases s) simp_all

lemma tab_of_tints:
  "\<forall>i<length TABS. tv_tint (map (tab_of (Colors m) a) (enumerate 0 TABS) ! i) = nav_icons_tinted (Colors m)
                     \<longleftrightarrow> i = a"
  using bar_tints_differ [of m] by (auto simp: tab_of_def nth_enumerate_eq simp del: length_TABS)

lemma tab_of_keys: "map tv_key (map (tab_of pal a) (enumerate 0 TABS)) = TABS"
  by (simp add: tab_of_def TABS_def)

text \<open>
  C16. Rendering the bar never throws (every tab has metadata and an existing icon),
  renders the tabs of \<open>TABS\<close> in order with their labels, and tints exactly the
  active tab with the theme's \<open>nav_icons_tinted\<close>, in both modes and with no mode.
\<close>

theorem render_highlights_active_tab:
  "\<exists>v. render_bar cs s = Some v \<and> map tv_key (bv_tabs v) = TABS \<and>
       map tv_label (bv_tabs v) = [''Translate'', ''Camera'', ''Conversation'', ''Favorites''] \<and>
       (\<forall>i<length TABS. tv_tint (bv_tabs v ! i) = nav_icons_tinted (Colors (scheme_or_light cs))
                          \<longleftrightarrow> i = nav_index (navstate s))"
proof -
  let ?pal = "Colors (scheme_or_light cs)" and ?a = "nav_index (navstate s)"
  note keys = tab_of_keys [of ?pal ?a]
  have labels: "map tv_label (map (tab_of ?pal ?a) (enumerate 0 TABS)) =
                  [''Translate'', ''Camera'', ''Conversation'', ''Favorites'']"
    by (simp add: tab_of_def TABS_def tabMeta_def)
  have tints: "\<forall>i<length TABS. tv_tint (map (tab_of ?pal ?a) (enumerate 0 TABS) ! i) = nav_icons_tinted ?pal
                                 \<longleftrightarrow> i = ?a"
    by (rule tab_of_tints)
  show ?thesis using keys labels tints by (simp add: render_bar_eq del: scheme_or_light_def)
qed

theorem render_highlights_active_tab_witness:
  "\<exists>v. render_bar (Some Dark) (mount_bar 400 (init_nav 1)) = Some v \<and>
       map tv_key (bv_tabs v) = TABS \<and>
       tv_tint (bv_tabs v ! 1) = ''#02D3D8'' \<and> tv_tint (bv_tabs v ! 0) \<noteq> ''#02D3D8'' \<and>
       tv_tint (bv_tabs v ! 2) \<noteq> ''#02D3D8'' \<and> tv_tint (bv_tabs v ! 3) \<noteq> ''#02D3D8''"
proof -
  obtain v where v: "render_bar (Some Dark) (mount_bar 400 (init_nav 1)) = Some v"
    and k: "map tv_key (bv_tabs v) = TABS"
    and t: "\<forall>i<length TABS. tv_tint (bv_tabs v ! i) = nav_icons_tinted (Colors (scheme_or_light (Some Dark)))
                          \<longleftrightarrow> i = nav_index (navstate (mount_bar 400 (init_nav 1)))"
    using render_highlights_active_tab [of "Some Dark" "mount_bar 400 (init_nav 1)"] by blast
  have "nav_index (navstate (mount_bar 400 (init_nav 1))) = 1"
    by (simp add: mount_bar_def init_nav_def)
  with t have "tv_tint (bv_tabs v ! i) = ''#02D3D8'' \<longleftrightarrow> i = 1" if "i < 4" for i
    using that by simp
  with v k show ?thesis by auto
qed

end
